theory Spec2Isabelle
  imports Complex_Main
begin

section \<open>Python values\<close>

text \<open>
  The services compute on Python floats. A coordinate and a distance is a finite float
  and is modelled as a real number, with exact arithmetic, but for one rounding error:
  that of the value \<^verbatim>\<open>a\<close> of \<^verbatim>\<open>haversine_distance\<close>, which decides whether
  \<^verbatim>\<open>math.sqrt\<close> raises (see there). The radius of a matching service is whatever float
  its caller passes, so it is a \<open>pyfloat\<close>: a finite value, an infinity or NaN;
  \<^verbatim>\<open>float('inf')\<close> is also the initial \<^verbatim>\<open>min_distance\<close> of the search. Exceptions are
  values of \<open>py_error\<close>; a function that can raise returns \<open>py_error + 'a\<close>, with \<open>Inl\<close>
  for the exception.
\<close>

datatype py_error =
  ValueError | IndexError | ZeroDivisionError | TypeError | AttributeError

datatype pyfloat = Finite real | Infinity | Minus_Infinity | NaN

text \<open>\<^verbatim>\<open>x < y\<close> and \<^verbatim>\<open>x <= y\<close> on floats: both are false when either side is NaN.\<close>

fun float_lt :: "pyfloat \<Rightarrow> pyfloat \<Rightarrow> bool" where
  "float_lt NaN y = False"
| "float_lt x NaN = False"
| "float_lt (Finite x) (Finite y) = (x < y)"
| "float_lt x Minus_Infinity = False"
| "float_lt Minus_Infinity y = True"
| "float_lt Infinity y = False"
| "float_lt x Infinity = True"

definition float_le :: "pyfloat \<Rightarrow> pyfloat \<Rightarrow> bool" where
  "float_le x y = (float_lt x y \<or> (x = y \<and> x \<noteq> NaN))"

text \<open>
  Subscripting a list, \<^verbatim>\<open>xs[i]\<close>: the indices \<open>0\<close> to \<open>len - 1\<close> count from the front,
  the indices \<open>-1\<close> down to \<open>-len\<close> from the back, and any other index raises
  IndexError.
\<close>

definition py_index :: "'a list \<Rightarrow> int \<Rightarrow> py_error + 'a" where
  "py_index xs i =
     (if 0 \<le> i \<and> i < int (length xs) then Inr (xs ! nat i)
      else if i < 0 \<and> - int (length xs) \<le> i then Inr (xs ! nat (int (length xs) + i))
      else Inl IndexError)"

text \<open>\<^verbatim>\<open>math.radians\<close>, \<^verbatim>\<open>math.sqrt\<close> (ValueError on a negative argument), \<^verbatim>\<open>math.atan2\<close>.\<close>

definition radians :: "real \<Rightarrow> real" where
  "radians d = d * pi / 180"

definition py_sqrt :: "real \<Rightarrow> py_error + real" where
  "py_sqrt x = (if x < 0 then Inl ValueError else Inr (sqrt x))"

definition atan2 :: "real \<Rightarrow> real \<Rightarrow> real" where
  "atan2 y x =
     (if 0 < x then arctan (y / x)
      else if x < 0 then (if 0 \<le> y then arctan (y / x) + pi else arctan (y / x) - pi)
      else if 0 < y then pi / 2
      else if y < 0 then - (pi / 2)
      else 0)"

text \<open>
  \<^verbatim>\<open>round(x, ndigits)\<close>: to the nearest multiple of \<open>10 ^ -ndigits\<close>, a tie to the even
  one.
\<close>

definition round_half_even :: "real \<Rightarrow> int" where
  "round_half_even y =
     (let f = \<lfloor>y\<rfloor>; r = y - of_int f
      in if r < 1 / 2 then f
         else if 1 / 2 < r then f + 1
         else if even f then f else f + 1)"

definition py_round :: "real \<Rightarrow> nat \<Rightarrow> real" where
  "py_round x ndigits = of_int (round_half_even (x * 10 ^ ndigits)) / 10 ^ ndigits"

section \<open>services/distance.py\<close>

record RoutePoint =
  latitude :: real
  longitude :: real
  distance_from_start :: real

record NearestPointResult =
  point :: RoutePoint
  distance_to_point :: pyfloat
  route_index :: nat

type_synonym route = "(real \<times> real) list"

definition EARTH_RADIUS_METERS :: real where
  "EARTH_RADIUS_METERS = 6371000"

text \<open>The value \<^verbatim>\<open>a\<close> of \<^verbatim>\<open>haversine_distance\<close>.\<close>

definition haversine_a :: "real \<Rightarrow> real \<Rightarrow> real \<Rightarrow> real \<Rightarrow> real" where
  "haversine_a lat1 lon1 lat2 lon2 =
     (let lat1_rad = radians lat1;
          lat2_rad = radians lat2;
          delta_lat = radians (lat2 - lat1);
          delta_lon = radians (lon2 - lon1)
      in (sin (delta_lat / 2))\<^sup>2 + cos lat1_rad * cos lat2_rad * (sin (delta_lon / 2))\<^sup>2)"

text \<open>
  \<^verbatim>\<open>haversine_distance\<close>. In exact arithmetic \<^verbatim>\<open>a\<close> lies between 0 and 1. The float that
  the code computes can lie outside: for the antipodal points \<open>(-82, 0)\<close> and
  \<open>(82, 180)\<close> it is \<^verbatim>\<open>1 + 2**-52\<close>, and \<^verbatim>\<open>math.sqrt(1 - a)\<close> raises ValueError. So the
  rounding error of \<^verbatim>\<open>a\<close> is kept, as a parameter: \<open>rounding lat1 lon1 lat2 lon2\<close> is the
  computed \<^verbatim>\<open>a\<close> minus its exact value. Nothing is assumed of it.
\<close>

type_synonym rounding = "real \<Rightarrow> real \<Rightarrow> real \<Rightarrow> real \<Rightarrow> real"

definition haversine_distance ::
  "rounding \<Rightarrow> real \<Rightarrow> real \<Rightarrow> real \<Rightarrow> real \<Rightarrow> py_error + real" where
  "haversine_distance rounding lat1 lon1 lat2 lon2 =
     (let a = haversine_a lat1 lon1 lat2 lon2 + rounding lat1 lon1 lat2 lon2
      in case py_sqrt a of
           Inl e \<Rightarrow> Inl e
         | Inr sa \<Rightarrow>
             (case py_sqrt (1 - a) of
                Inl e \<Rightarrow> Inl e
              | Inr sb \<Rightarrow> Inr (EARTH_RADIUS_METERS * (2 * atan2 sa sb))))"

text \<open>
  The first loop of \<^verbatim>\<open>find_nearest_point_on_route\<close>, over \<^verbatim>\<open>range(1, len(route_points))\<close>:
  the state is \<^verbatim>\<open>cumulative_distance\<close> and the list \<^verbatim>\<open>distances_from_start\<close>. Every index
  the loop reads is in range.
\<close>

fun cumulative_loop ::
  "rounding \<Rightarrow> route \<Rightarrow> nat list \<Rightarrow> real \<Rightarrow> real list \<Rightarrow> py_error + real list" where
  "cumulative_loop rounding route_points [] cumulative_distance distances_from_start =
     Inr distances_from_start"
| "cumulative_loop rounding route_points (i # is) cumulative_distance distances_from_start =
     (case route_points ! (i - 1) of (prev_lat, prev_lon) \<Rightarrow>
      case route_points ! i of (curr_lat, curr_lon) \<Rightarrow>
      case haversine_distance rounding prev_lat prev_lon curr_lat curr_lon of
        Inl e \<Rightarrow> Inl e
      | Inr segment_distance \<Rightarrow>
          cumulative_loop rounding route_points is (cumulative_distance + segment_distance)
            (distances_from_start @ [cumulative_distance + segment_distance]))"

definition distances_from_start_of :: "rounding \<Rightarrow> route \<Rightarrow> py_error + real list" where
  "distances_from_start_of rounding route_points =
     cumulative_loop rounding route_points [1 ..< length route_points] 0 [0]"

text \<open>
  The second loop, over \<^verbatim>\<open>enumerate(route_points)\<close>: the state is \<^verbatim>\<open>min_distance\<close> and
  \<^verbatim>\<open>nearest_index\<close>.
\<close>

fun nearest_loop ::
  "rounding \<Rightarrow> real \<Rightarrow> real \<Rightarrow> (nat \<times> real \<times> real) list \<Rightarrow> pyfloat \<Rightarrow> nat \<Rightarrow>
   py_error + pyfloat \<times> nat" where
  "nearest_loop rounding query_lat query_lon [] min_distance nearest_index =
     Inr (min_distance, nearest_index)"
| "nearest_loop rounding query_lat query_lon ((i, lat, lon) # rest) min_distance nearest_index =
     (case haversine_distance rounding query_lat query_lon lat lon of
        Inl e \<Rightarrow> Inl e
      | Inr distance \<Rightarrow>
          if float_lt (Finite distance) min_distance
          then nearest_loop rounding query_lat query_lon rest (Finite distance) i
          else nearest_loop rounding query_lat query_lon rest min_distance nearest_index)"

definition find_nearest_point_on_route ::
  "rounding \<Rightarrow> real \<Rightarrow> real \<Rightarrow> route \<Rightarrow> py_error + NearestPointResult option" where
  "find_nearest_point_on_route rounding query_lat query_lon route_points =
     (if route_points = [] then Inr None
      else
        case distances_from_start_of rounding route_points of
          Inl e \<Rightarrow> Inl e
        | Inr distances_from_start \<Rightarrow>
           (case nearest_loop rounding query_lat query_lon (enumerate 0 route_points)
                   Infinity 0 of
              Inl e \<Rightarrow> Inl e
            | Inr (min_distance, nearest_index) \<Rightarrow>
               (case route_points ! nearest_index of (nearest_lat, nearest_lon) \<Rightarrow>
                  Inr (Some \<lparr>point = \<lparr>latitude = nearest_lat, longitude = nearest_lon,
                                      distance_from_start = distances_from_start ! nearest_index\<rparr>,
                             distance_to_point = min_distance,
                             route_index = nearest_index\<rparr>))))"

text \<open>
  The loop of \<^verbatim>\<open>calculate_route_distance_between_points\<close>, over
  \<^verbatim>\<open>range(start_index, end_index)\<close>.
\<close>

fun route_distance_loop :: "rounding \<Rightarrow> route \<Rightarrow> int list \<Rightarrow> real \<Rightarrow> py_error + real" where
  "route_distance_loop rounding route_points [] total_distance = Inr total_distance"
| "route_distance_loop rounding route_points (i # is) total_distance =
     (case py_index route_points i of
        Inl e \<Rightarrow> Inl e
      | Inr (lat1, lon1) \<Rightarrow>
         (case py_index route_points (i + 1) of
            Inl e \<Rightarrow> Inl e
          | Inr (lat2, lon2) \<Rightarrow>
             (case haversine_distance rounding lat1 lon1 lat2 lon2 of
                Inl e \<Rightarrow> Inl e
              | Inr d \<Rightarrow> route_distance_loop rounding route_points is (total_distance + d))))"

definition calculate_route_distance_between_points ::
  "rounding \<Rightarrow> route \<Rightarrow> int \<Rightarrow> int \<Rightarrow> py_error + real" where
  "calculate_route_distance_between_points rounding route_points start_index end_index =
     (if start_index \<ge> end_index then Inr 0
      else route_distance_loop rounding route_points [start_index .. end_index - 1] 0)"

definition calculate_eta_minutes :: "real \<Rightarrow> real \<Rightarrow> py_error + real" where
  "calculate_eta_minutes distance_meters speed_kmh =
     (if speed_kmh \<le> 0 then Inr 0
      else
        let speed_mpm = (speed_kmh * 1000) / 60
        in if speed_mpm = 0 then Inl ZeroDivisionError
           else Inr (distance_meters / speed_mpm))"

section \<open>services/matching.py\<close>

text \<open>
  A trip record, with the fields the matcher reads. The field \<^verbatim>\<open>id\<close> is \<open>id_trip\<close>
  here, \<open>id\<close> being a constant of HOL. \<open>Trip\<close> and \<open>MatchedTrip\<close> both have a field
  \<open>available_seats\<close>; the one of the trip is written \<open>Trip.available_seats\<close>.
\<close>

record Trip =
  id_trip :: int
  route_geometry :: string
  available_seats :: int
  is_ride_requests_allowed :: bool

record MatchedTrip =
  trip_id :: int
  pickup_latitude :: real
  pickup_longitude :: real
  dropoff_latitude :: real
  dropoff_longitude :: real
  pickup_distance_meters :: pyfloat
  dropoff_distance_meters :: pyfloat
  rider_trip_distance_meters :: real
  available_seats :: int
  estimated_arrival_minutes :: real

text \<open>
  The service. Its radius is the float of the request, which may be NaN or infinite: the
  serializer's \<^verbatim>\<open>FloatField(min_value=0)\<close> rejects neither. The speed comes from the
  settings.
\<close>

record RouteMatchingService =
  radius_meters :: pyfloat
  average_speed_kmh :: real

text \<open>
  \<^verbatim>\<open>__init__\<close>: \<^verbatim>\<open>x or d\<close> takes \<^verbatim>\<open>d\<close> when \<^verbatim>\<open>x\<close> is None or zero; NaN is true. The two
  defaults are read from the settings module, which is not part of the sources, and are
  parameters.
\<close>

definition py_or_float :: "pyfloat option \<Rightarrow> pyfloat \<Rightarrow> pyfloat" where
  "py_or_float x d = (case x of None \<Rightarrow> d | Some v \<Rightarrow> if v = Finite 0 then d else v)"

definition py_or :: "real option \<Rightarrow> real \<Rightarrow> real" where
  "py_or x d = (case x of None \<Rightarrow> d | Some v \<Rightarrow> if v = 0 then d else v)"

definition RouteMatchingService_init ::
  "pyfloat \<Rightarrow> real \<Rightarrow> pyfloat option \<Rightarrow> real option \<Rightarrow> RouteMatchingService" where
  "RouteMatchingService_init DEFAULT_MATCHING_RADIUS_METERS DEFAULT_AVERAGE_SPEED_KMH
       radius average_speed =
     \<lparr>radius_meters = py_or_float radius DEFAULT_MATCHING_RADIUS_METERS,
      average_speed_kmh = py_or average_speed DEFAULT_AVERAGE_SPEED_KMH\<rparr>"

text \<open>
  \<^verbatim>\<open>_evaluate_trip\<close>. \<^verbatim>\<open>polyline.decode\<close> belongs to a package outside the repository and
  is the parameter \<open>decode\<close>: it returns the decoded points or raises.
  \<^verbatim>\<open>except Exception\<close> is around the call of \<^verbatim>\<open>decode\<close> only and catches whatever that
  raises; an exception of a later step leaves the function. A result object is always
  true, so \<^verbatim>\<open>not pickup_result\<close> holds for None only.
\<close>

definition evaluate_trip ::
  "rounding \<Rightarrow> (string \<Rightarrow> py_error + route) \<Rightarrow> RouteMatchingService \<Rightarrow> Trip \<Rightarrow>
   real \<Rightarrow> real \<Rightarrow> real \<Rightarrow> real \<Rightarrow> int \<Rightarrow> py_error + MatchedTrip option" where
  "evaluate_trip rounding decode self trip rider_start_lat rider_start_lon rider_dest_lat
       rider_dest_lon seats_required =
     (if \<not> is_ride_requests_allowed trip then Inr None
      else if Trip.available_seats trip < seats_required then Inr None
      else if route_geometry trip = [] then Inr None
      else
        case decode (route_geometry trip) of
          Inl e \<Rightarrow> Inr None
        | Inr route_points \<Rightarrow>
           if route_points = [] then Inr None
           else
            (case find_nearest_point_on_route rounding rider_start_lat rider_start_lon
                    route_points of
               Inl e \<Rightarrow> Inl e
             | Inr None \<Rightarrow> Inr None
             | Inr (Some pickup_result) \<Rightarrow>
                if float_lt (radius_meters self) (distance_to_point pickup_result)
                then Inr None
                else
                 (case find_nearest_point_on_route rounding rider_dest_lat rider_dest_lon
                         route_points of
                    Inl e \<Rightarrow> Inl e
                  | Inr None \<Rightarrow> Inr None
                  | Inr (Some dropoff_result) \<Rightarrow>
                     if float_lt (radius_meters self) (distance_to_point dropoff_result)
                     then Inr None
                     else if route_index dropoff_result \<le> route_index pickup_result
                     then Inr None
                     else
                      (case calculate_route_distance_between_points rounding route_points
                              (int (route_index pickup_result))
                              (int (route_index dropoff_result)) of
                         Inl e \<Rightarrow> Inl e
                       | Inr rider_trip_distance \<Rightarrow>
                          (case calculate_eta_minutes
                                  (distance_from_start (point pickup_result))
                                  (average_speed_kmh self) of
                             Inl e \<Rightarrow> Inl e
                           | Inr eta_minutes \<Rightarrow>
                              Inr (Some
                                \<lparr>trip_id = id_trip trip,
                                 pickup_latitude = latitude (point pickup_result),
                                 pickup_longitude = longitude (point pickup_result),
                                 dropoff_latitude = latitude (point dropoff_result),
                                 dropoff_longitude = longitude (point dropoff_result),
                                 pickup_distance_meters = distance_to_point pickup_result,
                                 dropoff_distance_meters = distance_to_point dropoff_result,
                                 rider_trip_distance_meters = rider_trip_distance,
                                 available_seats = Trip.available_seats trip,
                                 estimated_arrival_minutes = py_round eta_minutes 2\<rparr>))))))"

text \<open>
  \<^verbatim>\<open>find_matches\<close>: the loop over \<^verbatim>\<open>trips\<close>, with the list \<^verbatim>\<open>matches\<close> as its state. A
  \<open>MatchedTrip\<close> is always true, so \<^verbatim>\<open>if match\<close> skips None only. An exception of an
  evaluation leaves the loop and the function.
\<close>

fun find_matches_loop ::
  "rounding \<Rightarrow> (string \<Rightarrow> py_error + route) \<Rightarrow> RouteMatchingService \<Rightarrow> Trip list \<Rightarrow>
   real \<Rightarrow> real \<Rightarrow> real \<Rightarrow> real \<Rightarrow> int \<Rightarrow> MatchedTrip list \<Rightarrow> py_error + MatchedTrip list" where
  "find_matches_loop rounding decode self [] rider_start_lat rider_start_lon rider_dest_lat
       rider_dest_lon seats_required matches = Inr matches"
| "find_matches_loop rounding decode self (trip # trips) rider_start_lat rider_start_lon
       rider_dest_lat rider_dest_lon seats_required matches =
     (case evaluate_trip rounding decode self trip rider_start_lat rider_start_lon
             rider_dest_lat rider_dest_lon seats_required of
        Inl e \<Rightarrow> Inl e
      | Inr None \<Rightarrow>
          find_matches_loop rounding decode self trips rider_start_lat rider_start_lon
            rider_dest_lat rider_dest_lon seats_required matches
      | Inr (Some match) \<Rightarrow>
          find_matches_loop rounding decode self trips rider_start_lat rider_start_lon
            rider_dest_lat rider_dest_lon seats_required (matches @ [match]))"

definition find_matches ::
  "rounding \<Rightarrow> (string \<Rightarrow> py_error + route) \<Rightarrow> RouteMatchingService \<Rightarrow> Trip list \<Rightarrow>
   real \<Rightarrow> real \<Rightarrow> real \<Rightarrow> real \<Rightarrow> int \<Rightarrow> py_error + MatchedTrip list" where
  "find_matches rounding decode self trips rider_start_lat rider_start_lon rider_dest_lat
       rider_dest_lon seats_required =
     find_matches_loop rounding decode self trips rider_start_lat rider_start_lon
       rider_dest_lat rider_dest_lon seats_required []"

section \<open>The polyline decoder\<close>

text \<open>
  Modelled from the spec: the decoder of the polyline package, which the matcher imports and
  which is not part of the sources. Section 4.1 of the specification describes it: every
  character of the ASCII range 63 to 126 carries, after subtracting 63, five bits of data
  and the continuation bit \<open>0x20\<close>; the chunks of one value are joined lowest first; the
  value is zig-zag encoded; values come in pairs, the changes of latitude and longitude in
  units of \<open>1e-5\<close> degree, added to running totals. An empty input, a character outside the
  alphabet and an input that ends inside a value or inside a pair are decode errors. The
  theorems about the matcher hold for every decoder; this one supplies concrete routes.
\<close>

definition zigzag :: "nat \<Rightarrow> int" where
  "zigzag r = (if odd r then - int (r div 2) - 1 else int (r div 2))"

fun polyline_values :: "string \<Rightarrow> nat \<Rightarrow> nat \<Rightarrow> py_error + int list" where
  "polyline_values [] result shift = (if shift = 0 then Inr [] else Inl IndexError)"
| "polyline_values (c # cs) result shift =
     (let code = (of_char c :: nat) in
      if code < 63 \<or> 126 < code then Inl ValueError
      else
        let byte = code - 63; result' = result + (byte mod 32) * 2 ^ shift in
        if 32 \<le> byte then polyline_values cs result' (shift + 5)
        else
          case polyline_values cs 0 0 of
            Inl e \<Rightarrow> Inl e
          | Inr vs \<Rightarrow> Inr (zigzag result' # vs))"

fun polyline_points :: "int list \<Rightarrow> int \<Rightarrow> int \<Rightarrow> py_error + route" where
  "polyline_points [] lat lng = Inr []"
| "polyline_points [v] lat lng = Inl IndexError"
| "polyline_points (lat_change # lng_change # vs) lat lng =
     (case polyline_points vs (lat + lat_change) (lng + lng_change) of
        Inl e \<Rightarrow> Inl e
      | Inr ps \<Rightarrow>
          Inr ((of_int (lat + lat_change) / 100000, of_int (lng + lng_change) / 100000) # ps))"

definition polyline_decode :: "string \<Rightarrow> py_error + route" where
  "polyline_decode expression =
     (if expression = [] then Inl ValueError
      else
        case polyline_values expression 0 0 of
          Inl e \<Rightarrow> Inl e
        | Inr vs \<Rightarrow> polyline_points vs 0 0)"

section \<open>consumers.py\<close>

text \<open>
  \<^verbatim>\<open>receive_json\<close> is called with the decoded JSON text of an inbound frame, which is any
  JSON value. A JSON object is the list of its members in the order of the text; of two
  members of the same name the later one counts, as in the dict that the JSON decoder
  builds.
\<close>

datatype json =
  JNull | JBool bool | JInt int | JFloat real | JStr string
| JArr "json list" | JObj "(string \<times> json) list"

text \<open>
  \<^verbatim>\<open>content.get(key, dflt)\<close>: only a dict has the method; on any other value the
  attribute lookup raises AttributeError.
\<close>

definition py_get :: "json \<Rightarrow> string \<Rightarrow> json \<Rightarrow> py_error + json" where
  "py_get content key dflt =
     (case content of
        JObj members \<Rightarrow>
          Inr (case map_of (rev members) key of None \<Rightarrow> dflt | Some v \<Rightarrow> v)
      | _ \<Rightarrow> Inl AttributeError)"

text \<open>
  The outbound messages, by their \<^verbatim>\<open>type\<close> member; the success messages carry the
  \<^verbatim>\<open>trip_id\<close>, the update carries its \<^verbatim>\<open>data\<close>. The text of an error message is
  kept symbolic: the constructor \<open>Unknown_message_type\<close> carries the value that the
  f-string \<^verbatim>\<open>f'Unknown message type: {message_type}'\<close> formats.
\<close>

datatype error_text =
  Unknown_message_type json
| Missing_required_fields
| Trip_not_found json
| Failed_to_publish
| Missing_trip_id

datatype out_message =
  ERROR error_text
| LOCATION_PUBLISHED json
| SUBSCRIBED json
| UNSUBSCRIBED json
| TRIP_LOCATION_UPDATE json

text \<open>
  The state of one connection: the set \<^verbatim>\<open>subscribed_trips\<close>, the messages passed to
  \<^verbatim>\<open>send_json\<close> so far (oldest first), the groups of the channel layer the connection
  has joined and the location updates handed to the Kafka producer.
\<close>

record consumer =
  subscribed_trips :: "json set"
  sent :: "out_message list"
  groups :: "json set"
  published :: "json list"

definition send_json :: "consumer \<Rightarrow> out_message \<Rightarrow> consumer" where
  "send_json self m = self\<lparr>sent := sent self @ [m]\<rparr>"

text \<open>
  The three handlers are parameters of \<open>receive_json\<close>: each takes the connection and the
  \<^verbatim>\<open>data\<close> member and returns the new state of the connection, or raises.
\<close>

type_synonym handler = "consumer \<Rightarrow> json \<Rightarrow> py_error + consumer"

datatype handler_name = Handle_publish_location | Handle_subscribe | Handle_unsubscribe

text \<open>
  \<^verbatim>\<open>handlers.get(message_type)\<close>: the lookup in the dict \<^verbatim>\<open>handlers\<close> hashes the key, and
  hashing a list or a dict raises TypeError. A key that is not a string equals none of
  the three keys.
\<close>

definition handlers :: "(string \<times> handler_name) list" where
  "handlers =
     [(''PUBLISH_LOCATION'', Handle_publish_location),
      (''SUBSCRIBE_TO_TRIP_LOCATION'', Handle_subscribe),
      (''UNSUBSCRIBE_FROM_TRIP_LOCATION'', Handle_unsubscribe)]"

definition handlers_get :: "json \<Rightarrow> py_error + handler_name option" where
  "handlers_get message_type =
     (case message_type of
        JArr _ \<Rightarrow> Inl TypeError
      | JObj _ \<Rightarrow> Inl TypeError
      | JStr s \<Rightarrow> Inr (map_of handlers s)
      | _ \<Rightarrow> Inr None)"

definition receive_json ::
  "handler \<Rightarrow> handler \<Rightarrow> handler \<Rightarrow> consumer \<Rightarrow> json \<Rightarrow> py_error + consumer" where
  "receive_json handle_publish_location handle_subscribe handle_unsubscribe self content =
     (case py_get content ''type'' JNull of
        Inl e \<Rightarrow> Inl e
      | Inr message_type \<Rightarrow>
         (case py_get content ''data'' (JObj []) of
            Inl e \<Rightarrow> Inl e
          | Inr data \<Rightarrow>
             (case handlers_get message_type of
                Inl e \<Rightarrow> Inl e
              | Inr (Some Handle_publish_location) \<Rightarrow> handle_publish_location self data
              | Inr (Some Handle_subscribe) \<Rightarrow> handle_subscribe self data
              | Inr (Some Handle_unsubscribe) \<Rightarrow> handle_unsubscribe self data
              | Inr None \<Rightarrow>
                  Inr (send_json self (ERROR (Unknown_message_type message_type))))))"

section \<open>Notions used in the statements\<close>

text \<open>
  Whether \<open>haversine_distance\<close> returns, and the value it then returns. The distance from
  a query point to a route point and the length of segment \<open>i\<close> of a route are such
  values; \<open>cumulative_distance_at\<close> is the sum of the lengths of the first \<open>i\<close> segments.
\<close>

definition haversine_returns :: "rounding \<Rightarrow> real \<Rightarrow> real \<Rightarrow> real \<Rightarrow> real \<Rightarrow> bool" where
  "haversine_returns rounding lat1 lon1 lat2 lon2 =
     (let a = haversine_a lat1 lon1 lat2 lon2 + rounding lat1 lon1 lat2 lon2
      in 0 \<le> a \<and> a \<le> 1)"

definition haversine_value :: "rounding \<Rightarrow> real \<Rightarrow> real \<Rightarrow> real \<Rightarrow> real \<Rightarrow> real" where
  "haversine_value rounding lat1 lon1 lat2 lon2 =
     (let a = haversine_a lat1 lon1 lat2 lon2 + rounding lat1 lon1 lat2 lon2
      in EARTH_RADIUS_METERS * (2 * atan2 (sqrt a) (sqrt (1 - a))))"

definition query_returns :: "rounding \<Rightarrow> real \<Rightarrow> real \<Rightarrow> real \<times> real \<Rightarrow> bool" where
  "query_returns rounding query_lat query_lon p =
     haversine_returns rounding query_lat query_lon (fst p) (snd p)"

definition query_distance :: "rounding \<Rightarrow> real \<Rightarrow> real \<Rightarrow> real \<times> real \<Rightarrow> real" where
  "query_distance rounding query_lat query_lon p =
     haversine_value rounding query_lat query_lon (fst p) (snd p)"

definition segment_returns :: "rounding \<Rightarrow> route \<Rightarrow> nat \<Rightarrow> bool" where
  "segment_returns rounding route_points i =
     haversine_returns rounding (fst (route_points ! i)) (snd (route_points ! i))
       (fst (route_points ! Suc i)) (snd (route_points ! Suc i))"

definition segment_length :: "rounding \<Rightarrow> route \<Rightarrow> nat \<Rightarrow> real" where
  "segment_length rounding route_points i =
     haversine_value rounding (fst (route_points ! i)) (snd (route_points ! i))
       (fst (route_points ! Suc i)) (snd (route_points ! Suc i))"

definition cumulative_distance_at :: "rounding \<Rightarrow> route \<Rightarrow> nat \<Rightarrow> real" where
  "cumulative_distance_at rounding route_points i =
     (\<Sum>j<i. segment_length rounding route_points j)"

text \<open>
  The seven conditions of a match, as the code reads them: the trip accepts ride
  requests; it has the seats; its geometry is not empty and decodes; the decoded route is
  not empty; the nearest route point to the pickup is not farther than the radius; nor
  is the nearest route point to the dropoff; the index of the latter is strictly greater.
  Each condition is stated on what the earlier ones provide, which is the order of the
  checks. Not farther than the radius is the code's \<^verbatim>\<open>not (distance > radius)\<close>, which
  a NaN radius satisfies.
\<close>

definition within_radius :: "RouteMatchingService \<Rightarrow> NearestPointResult \<Rightarrow> bool" where
  "within_radius self r = (\<not> float_lt (radius_meters self) (distance_to_point r))"

definition match_conditions ::
  "rounding \<Rightarrow> (string \<Rightarrow> py_error + route) \<Rightarrow> RouteMatchingService \<Rightarrow> Trip \<Rightarrow>
   real \<Rightarrow> real \<Rightarrow> real \<Rightarrow> real \<Rightarrow> int \<Rightarrow> bool" where
  "match_conditions rounding decode self trip slat slon dlat dlon seats_required =
     (is_ride_requests_allowed trip
      \<and> seats_required \<le> Trip.available_seats trip
      \<and> route_geometry trip \<noteq> []
      \<and> (case decode (route_geometry trip) of
            Inl e \<Rightarrow> False
          | Inr rp \<Rightarrow>
              rp \<noteq> []
              \<and> (case find_nearest_point_on_route rounding slat slon rp of
                    Inr (Some p) \<Rightarrow>
                      within_radius self p
                      \<and> (case find_nearest_point_on_route rounding dlat dlon rp of
                            Inr (Some d) \<Rightarrow> within_radius self d \<and> route_index p < route_index d
                          | _ \<Rightarrow> False)
                  | _ \<Rightarrow> False)))"

text \<open>
  Example data. Two roundings: none at all, which is exact arithmetic, and the error that
  double arithmetic makes at the antipodal points \<open>(-82, 0)\<close> and \<open>(82, 180)\<close>, where the
  computed \<^verbatim>\<open>a\<close> is \<^verbatim>\<open>1 + 2**-52\<close> (and no error anywhere else, which no
  statement uses). A service with a radius of 500 m; a trip along the equator through the points of
  longitude 0, 1 and 2 degrees; the same trip under another identifier; a trip whose
  geometry ends inside a value; and a trip whose route is the one point \<open>(-82, 0)\<close>.
\<close>

definition no_rounding :: rounding where
  "no_rounding lat1 lon1 lat2 lon2 = 0"

definition antipode_rounding :: rounding where
  "antipode_rounding lat1 lon1 lat2 lon2 =
     (if (lat1, lon1, lat2, lon2) = (82, 180, -82, 0)
         \<or> (lat1, lon1, lat2, lon2) = (-82, 0, 82, 180)
      then 1 / 2 ^ 52 else 0)"

definition example_service :: RouteMatchingService where
  "example_service = \<lparr>radius_meters = Finite 500, average_speed_kmh = 30\<rparr>"

definition example_trip :: Trip where
  "example_trip = \<lparr>id_trip = 7, route_geometry = ''???_ibE?_ibE'', Trip.available_seats = 3,
                    is_ride_requests_allowed = True\<rparr>"

definition second_trip :: Trip where
  "second_trip = \<lparr>id_trip = 9, route_geometry = ''???_ibE?_ibE'', Trip.available_seats = 1,
                   is_ride_requests_allowed = True\<rparr>"

definition broken_trip :: Trip where
  "broken_trip = \<lparr>id_trip = 8, route_geometry = ''???_ib'', Trip.available_seats = 3,
                   is_ride_requests_allowed = True\<rparr>"

definition antipode_trip :: Trip where
  "antipode_trip = \<lparr>id_trip = 5, route_geometry = ''~rnsN?'', Trip.available_seats = 3,
                     is_ride_requests_allowed = True\<rparr>"

section \<open>Lemmas\<close>

subsection \<open>The exact value under the square roots lies between 0 and 1\<close>

lemma cos_prod:
  fixes m d :: real
  shows "cos (m - d) * cos (m + d) = (cos d)\<^sup>2 - (sin m)\<^sup>2"
proof -
  define cm sm cd sd where "cm = cos m" and "sm = sin m" and "cd = cos d" and "sd = sin d"
  have p1: "cm\<^sup>2 = 1 - sm\<^sup>2"
    unfolding cm_def sm_def by (rule cos_squared_eq)
  have p2: "sd\<^sup>2 = 1 - cd\<^sup>2"
    unfolding cd_def sd_def by (rule sin_squared_eq)
  have "cos (m - d) * cos (m + d) = (cm * cd + sm * sd) * (cm * cd - sm * sd)"
    unfolding cm_def sm_def cd_def sd_def by (simp only: cos_diff cos_add)
  also have "\<dots> = cm\<^sup>2 * cd\<^sup>2 - sm\<^sup>2 * sd\<^sup>2"
    by (simp add: power2_eq_square algebra_simps)
  also have "\<dots> = cd\<^sup>2 - sm\<^sup>2"
    unfolding p1 p2 by (simp add: algebra_simps)
  finally show ?thesis unfolding cd_def sm_def .
qed

lemma haversine_a_alt:
  fixes u v s :: real
  shows "(sin ((v - u) / 2))\<^sup>2 + cos u * cos v * s
       = (1 - s) * (sin ((v - u) / 2))\<^sup>2 + s * (cos ((u + v) / 2))\<^sup>2"
proof -
  define m d where "m = (u + v) / 2" and "d = (v - u) / 2"
  have uv: "u = m - d" "v = m + d"
    unfolding m_def d_def by (simp_all add: field_simps)
  have "cos u * cos v = (cos d)\<^sup>2 - (sin m)\<^sup>2"
    unfolding uv by (rule cos_prod)
  also have "\<dots> = (1 - (sin d)\<^sup>2) - (1 - (cos m)\<^sup>2)"
    by (simp only: cos_squared_eq [of d] sin_squared_eq [of m])
  finally have e: "cos u * cos v = (cos m)\<^sup>2 - (sin d)\<^sup>2" by simp
  have "(sin d)\<^sup>2 + cos u * cos v * s = (1 - s) * (sin d)\<^sup>2 + s * (cos m)\<^sup>2"
    unfolding e by (simp add: algebra_simps)
  then show ?thesis unfolding m_def d_def .
qed

lemma haversine_a_eq:
  "haversine_a lat1 lon1 lat2 lon2 =
     (1 - (sin (radians (lon2 - lon1) / 2))\<^sup>2) * (sin (radians (lat2 - lat1) / 2))\<^sup>2
     + (sin (radians (lon2 - lon1) / 2))\<^sup>2 * (cos ((radians lat1 + radians lat2) / 2))\<^sup>2"
proof -
  have "radians (lat2 - lat1) = radians lat2 - radians lat1"
    by (simp add: radians_def field_simps)
  then show ?thesis
    unfolding haversine_a_def Let_def
    using haversine_a_alt [of "radians lat2" "radians lat1" "(sin (radians (lon2 - lon1) / 2))\<^sup>2"]
    by simp
qed

lemma sin2_le1: "(sin (x::real))\<^sup>2 \<le> 1"
  by (simp add: abs_square_le_1)

lemma cos2_le1: "(cos (x::real))\<^sup>2 \<le> 1"
  by (simp add: abs_square_le_1)

lemma haversine_a_nonneg: "0 \<le> haversine_a lat1 lon1 lat2 lon2"
  unfolding haversine_a_eq
  by (intro add_nonneg_nonneg mult_nonneg_nonneg) (simp_all add: sin2_le1)

lemma haversine_a_le1: "haversine_a lat1 lon1 lat2 lon2 \<le> 1"
proof -
  let ?s = "(sin (radians (lon2 - lon1) / 2))\<^sup>2"
  let ?p = "(sin (radians (lat2 - lat1) / 2))\<^sup>2"
  let ?q = "(cos ((radians lat1 + radians lat2) / 2))\<^sup>2"
  have s: "0 \<le> ?s" "?s \<le> 1" by (simp_all add: sin2_le1)
  have "(1 - ?s) * ?p \<le> (1 - ?s) * 1"
    using s by (intro mult_left_mono) (simp_all add: sin2_le1)
  moreover have "?s * ?q \<le> ?s * 1"
    using s by (intro mult_left_mono) (simp_all add: cos2_le1)
  ultimately show ?thesis unfolding haversine_a_eq by simp
qed

subsection \<open>When the distance returns, and what\<close>

lemma haversine_distance_cases:
  "haversine_distance rounding lat1 lon1 lat2 lon2 =
     (if haversine_returns rounding lat1 lon1 lat2 lon2
      then Inr (haversine_value rounding lat1 lon1 lat2 lon2) else Inl ValueError)"
  by (auto simp: haversine_distance_def haversine_returns_def haversine_value_def py_sqrt_def
        Let_def)

lemma haversine_distance_InrD:
  assumes "haversine_distance rounding lat1 lon1 lat2 lon2 = Inr x"
  shows "haversine_returns rounding lat1 lon1 lat2 lon2"
    and "x = haversine_value rounding lat1 lon1 lat2 lon2"
  using assms by (auto simp: haversine_distance_cases split: if_splits)

lemma atan2_nonneg: "0 \<le> y \<Longrightarrow> 0 \<le> x \<Longrightarrow> 0 \<le> atan2 y x"
  by (simp add: atan2_def)

lemma haversine_value_nonneg:
  "haversine_returns rounding lat1 lon1 lat2 lon2 \<Longrightarrow>
   0 \<le> haversine_value rounding lat1 lon1 lat2 lon2"
  by (simp add: haversine_returns_def haversine_value_def Let_def EARTH_RADIUS_METERS_def
        atan2_nonneg)

lemma no_rounding_returns: "haversine_returns no_rounding lat1 lon1 lat2 lon2"
  using haversine_a_nonneg [of lat1 lon1 lat2 lon2] haversine_a_le1 [of lat1 lon1 lat2 lon2]
  by (simp add: haversine_returns_def no_rounding_def)

lemma haversine_distance_exact:
  "haversine_distance no_rounding lat1 lon1 lat2 lon2 =
   Inr (haversine_value no_rounding lat1 lon1 lat2 lon2)"
  by (simp add: haversine_distance_cases no_rounding_returns)

subsection \<open>The distance along the equator and between antipodes\<close>

lemma atan2_sin_cos:
  fixes x :: real
  assumes "0 \<le> x" "x \<le> pi / 2"
  shows "atan2 (sin x) (cos x) = x"
proof (cases "x = pi / 2")
  case True
  show ?thesis unfolding True by (simp add: atan2_def)
next
  case False
  with assms have lt: "x < pi / 2" by simp
  have "0 < cos x" using assms lt by (intro cos_gt_zero_pi) auto
  moreover have "arctan (sin x / cos x) = x"
    using arctan_tan [of x] assms lt by (simp add: tan_def)
  ultimately show ?thesis by (simp add: atan2_def)
qed

lemma haversine_equator:
  assumes "\<bar>lon2 - lon1\<bar> \<le> 180"
  shows "haversine_value no_rounding 0 lon1 0 lon2
         = EARTH_RADIUS_METERS * (\<bar>lon2 - lon1\<bar> * pi / 180)"
proof -
  define x where "x = \<bar>radians (lon2 - lon1)\<bar> / 2"
  have r: "\<bar>radians (lon2 - lon1)\<bar> = \<bar>lon2 - lon1\<bar> * pi / 180"
    by (simp add: radians_def abs_mult)
  have "\<bar>lon2 - lon1\<bar> * pi \<le> 180 * pi"
    using assms by (intro mult_right_mono) simp_all
  then have x: "0 \<le> x" "x \<le> pi / 2"
    unfolding x_def r by simp_all
  have sx: "0 \<le> sin x" using x by (intro sin_ge_zero) auto
  have cx: "0 \<le> cos x" using x by (intro cos_ge_zero) auto
  have a: "haversine_a 0 lon1 0 lon2 = (sin x)\<^sup>2"
  proof -
    have "(sin (radians (lon2 - lon1) / 2))\<^sup>2 = (sin x)\<^sup>2"
      unfolding x_def by (cases "0 \<le> radians (lon2 - lon1)") (simp_all add: abs_if)
    then show ?thesis by (simp add: haversine_a_def radians_def Let_def)
  qed
  have "sqrt (haversine_a 0 lon1 0 lon2) = sin x"
    unfolding a using sx by simp
  moreover have "sqrt (1 - haversine_a 0 lon1 0 lon2) = cos x"
  proof -
    have "1 - (sin x)\<^sup>2 = (cos x)\<^sup>2" by (simp add: cos_squared_eq)
    then show ?thesis unfolding a using cx by simp
  qed
  ultimately have "haversine_value no_rounding 0 lon1 0 lon2 = EARTH_RADIUS_METERS * (2 * x)"
    using atan2_sin_cos [OF x] by (simp add: haversine_value_def no_rounding_def Let_def)
  also have "2 * x = \<bar>lon2 - lon1\<bar> * pi / 180"
    unfolding x_def r by simp
  finally show ?thesis .
qed

lemma haversine_same: "haversine_value no_rounding lat lon lat lon = 0"
  by (simp add: haversine_value_def haversine_a_def no_rounding_def radians_def atan2_def Let_def)

lemma haversine_a_antipode: "haversine_a lat lon (- lat) (lon - 180) = 1"
proof -
  have d: "radians (lon - 180 - lon) / 2 = - (pi / 2)"
    by (simp add: radians_def)
  have l: "radians (- lat - lat) / 2 = - radians lat"
    by (simp add: radians_def)
  have m: "radians (- lat) = - radians lat"
    by (simp add: radians_def)
  show ?thesis
    unfolding haversine_a_def Let_def d l m
    by (simp add: power2_eq_square [symmetric])
qed


lemma haversine_distance_antipode:
  assumes "0 < rounding 82 180 (- 82) 0"
  shows "haversine_distance rounding 82 180 (- 82) 0 = Inl ValueError"
  using assms haversine_a_antipode [of 82 180]
  by (simp add: haversine_distance_cases haversine_returns_def)


subsection \<open>The loops\<close>

lemma cumulative_loop_upt:
  "1 \<le> k \<Longrightarrow> cum = cumulative_distance_at rounding rp (k - 1) \<Longrightarrow>
   cumulative_loop rounding rp [k ..< n] cum ds =
     (if \<forall>i. k \<le> i \<and> i < n \<longrightarrow> segment_returns rounding rp (i - 1)
      then Inr (ds @ map (cumulative_distance_at rounding rp) [k ..< n])
      else Inl ValueError)"
proof (induction "n - k" arbitrary: k cum ds)
  case 0
  then show ?case by simp
next
  case (Suc m)
  then have kn: "k < n" by simp
  obtain j where j: "k = Suc j" using Suc.prems(1) by (cases k) auto
  have up: "[k ..< n] = k # [Suc k ..< n]" using kn by (simp add: upt_conv_Cons)
  show ?case
  proof (cases "segment_returns rounding rp j")
    case False
    then have "cumulative_loop rounding rp [k ..< n] cum ds = Inl ValueError"
      unfolding up
      by (simp add: j haversine_distance_cases segment_returns_def case_prod_beta)
    moreover have "\<not> (\<forall>i. k \<le> i \<and> i < n \<longrightarrow> segment_returns rounding rp (i - 1))"
      using False kn j by auto
    ultimately show ?thesis by simp
  next
    case True
    have step: "cum + segment_length rounding rp j = cumulative_distance_at rounding rp k"
      using Suc.prems(2) unfolding j cumulative_distance_at_def by simp
    have ih: "cumulative_loop rounding rp [Suc k ..< n] (cumulative_distance_at rounding rp k)
                (ds @ [cumulative_distance_at rounding rp k])
              = (if \<forall>i. Suc k \<le> i \<and> i < n \<longrightarrow> segment_returns rounding rp (i - 1)
                 then Inr ((ds @ [cumulative_distance_at rounding rp k])
                           @ map (cumulative_distance_at rounding rp) [Suc k ..< n])
                 else Inl ValueError)"
      using Suc.hyps(2) by (intro Suc.hyps(1)) simp_all
    have run: "cumulative_loop rounding rp [k ..< n] cum ds
          = cumulative_loop rounding rp [Suc k ..< n] (cum + segment_length rounding rp j)
              (ds @ [cum + segment_length rounding rp j])"
      using True unfolding up
      by (simp add: j haversine_distance_cases segment_returns_def segment_length_def
            case_prod_beta)
    have all: "(\<forall>i. k \<le> i \<and> i < n \<longrightarrow> segment_returns rounding rp (i - 1))
               = (\<forall>i. Suc k \<le> i \<and> i < n \<longrightarrow> segment_returns rounding rp (i - 1))"
    proof -
      have "segment_returns rounding rp (k - 1)" using True j by simp
      then show ?thesis by (metis Suc_leI le_neq_implies_less Suc_leD)
    qed
    show ?thesis
      unfolding run step ih all using kn by (simp add: upt_conv_Cons)
  qed
qed

lemma distances_from_start_of_eq:
  assumes "rp \<noteq> []"
  shows "distances_from_start_of rounding rp =
           (if \<forall>i. Suc i < length rp \<longrightarrow> segment_returns rounding rp i
            then Inr (map (cumulative_distance_at rounding rp) [0 ..< length rp])
            else Inl ValueError)"
proof -
  have "cumulative_loop rounding rp [1 ..< length rp] 0 [0]
        = (if \<forall>i. 1 \<le> i \<and> i < length rp \<longrightarrow> segment_returns rounding rp (i - 1)
           then Inr ([0] @ map (cumulative_distance_at rounding rp) [1 ..< length rp])
           else Inl ValueError)"
    by (rule cumulative_loop_upt) (simp_all add: cumulative_distance_at_def)
  moreover have "[0 ..< length rp] = 0 # [1 ..< length rp]"
    using assms by (simp add: upt_conv_Cons)
  moreover have "(\<forall>i. 1 \<le> i \<and> i < length rp \<longrightarrow> segment_returns rounding rp (i - 1))
                 = (\<forall>i. Suc i < length rp \<longrightarrow> segment_returns rounding rp i)"
  proof
    assume h: "\<forall>i. 1 \<le> i \<and> i < length rp \<longrightarrow> segment_returns rounding rp (i - 1)"
    show "\<forall>i. Suc i < length rp \<longrightarrow> segment_returns rounding rp i"
    proof (intro allI impI)
      fix i assume "Suc i < length rp"
      with h [rule_format, of "Suc i"] show "segment_returns rounding rp i" by simp
    qed
  next
    assume h: "\<forall>i. Suc i < length rp \<longrightarrow> segment_returns rounding rp i"
    show "\<forall>i. 1 \<le> i \<and> i < length rp \<longrightarrow> segment_returns rounding rp (i - 1)"
    proof (intro allI impI)
      fix i assume "1 \<le> i \<and> i < length rp"
      with h [rule_format, of "i - 1"] show "segment_returns rounding rp (i - 1)" by simp
    qed
  qed
  ultimately show ?thesis
    by (simp add: distances_from_start_of_def cumulative_distance_at_def)
qed

lemma float_lt_trans: "float_lt a b \<Longrightarrow> float_lt b c \<Longrightarrow> float_lt a c"
  by (cases a; cases b; cases c) auto

lemma float_lt_not_trans: "float_lt a b \<Longrightarrow> \<not> float_lt c b \<Longrightarrow> c \<noteq> NaN \<Longrightarrow> float_lt a c"
  by (cases a; cases b; cases c) auto

lemma float_lt_asym: "float_lt a b \<Longrightarrow> \<not> float_lt b a"
  by (cases a; cases b) auto

lemma float_lt_irrefl: "\<not> float_lt a a"
  by (cases a) auto

lemma nearest_loop_exact_total:
  "\<exists>md' ni'. nearest_loop no_rounding qlat qlon ps md ni = Inr (md', ni')"
  by (induction ps arbitrary: md ni) (auto simp: haversine_distance_exact)

lemma nearest_loop_spec:
  assumes "nearest_loop rounding qlat qlon (enumerate k xs) md ni = Inr (md', ni')"
  shows "\<not> float_lt md md'
       \<and> (\<forall>j<length xs. query_returns rounding qlat qlon (xs ! j)
              \<and> \<not> float_lt (Finite (query_distance rounding qlat qlon (xs ! j))) md')
       \<and> ((md' = md \<and> ni' = ni)
          \<or> (float_lt md' md \<and> k \<le> ni' \<and> ni' < k + length xs
              \<and> md' = Finite (query_distance rounding qlat qlon (xs ! (ni' - k)))
              \<and> (\<forall>j < ni' - k.
                    float_lt md' (Finite (query_distance rounding qlat qlon (xs ! j))))))"
  using assms
proof (induction xs arbitrary: k md ni)
  case Nil
  then show ?case by (simp add: float_lt_irrefl)
next
  case (Cons x xs)
  obtain lat lon where x: "x = (lat, lon)" by (cases x)
  let ?d = "Finite (query_distance rounding qlat qlon x)"
  have ret: "query_returns rounding qlat qlon x"
    using Cons.prems
    by (auto simp: x haversine_distance_cases query_returns_def split: if_splits)
  have hd: "haversine_distance rounding qlat qlon lat lon
            = Inr (query_distance rounding qlat qlon x)"
    using ret by (simp add: x haversine_distance_cases query_returns_def query_distance_def)
  show ?case
  proof (cases "float_lt ?d md")
    case True
    then have run: "nearest_loop rounding qlat qlon (enumerate (Suc k) xs) ?d k = Inr (md', ni')"
      using Cons.prems by (simp add: x hd)
    note ih = Cons.IH [OF run]
    from ih have le: "\<not> float_lt ?d md'" by blast
    from ih have all: "\<forall>j<length xs. query_returns rounding qlat qlon (xs ! j)
              \<and> \<not> float_lt (Finite (query_distance rounding qlat qlon (xs ! j))) md'"
      by blast
    from ih consider (same) "md' = ?d" "ni' = k"
      | (later) "float_lt md' ?d" "Suc k \<le> ni'" "ni' < Suc k + length xs"
          "md' = Finite (query_distance rounding qlat qlon (xs ! (ni' - Suc k)))"
          "\<forall>j < ni' - Suc k. float_lt md' (Finite (query_distance rounding qlat qlon (xs ! j)))"
      by blast
    then have lt_md: "float_lt md' md"
    proof cases
      case same
      then show ?thesis using True by simp
    next
      case later
      from later(1) True show ?thesis by (rule float_lt_trans)
    qed
    have 1: "\<not> float_lt md md'" using lt_md by (rule float_lt_asym)
    have 2: "\<forall>j<length (x # xs). query_returns rounding qlat qlon ((x # xs) ! j)
              \<and> \<not> float_lt (Finite (query_distance rounding qlat qlon ((x # xs) ! j))) md'"
      using le all ret by (auto simp: nth_Cons split: nat.splits)
    from ih consider (same) "md' = ?d" "ni' = k"
      | (later) "float_lt md' ?d" "Suc k \<le> ni'" "ni' < Suc k + length xs"
          "md' = Finite (query_distance rounding qlat qlon (xs ! (ni' - Suc k)))"
          "\<forall>j < ni' - Suc k. float_lt md' (Finite (query_distance rounding qlat qlon (xs ! j)))"
      by blast
    then have 3: "k \<le> ni' \<and> ni' < k + length (x # xs)
              \<and> md' = Finite (query_distance rounding qlat qlon ((x # xs) ! (ni' - k)))
              \<and> (\<forall>j < ni' - k.
                    float_lt md' (Finite (query_distance rounding qlat qlon ((x # xs) ! j))))"
    proof cases
      case same
      then show ?thesis by simp
    next
      case later
      from later(2) obtain n where n: "ni' - k = Suc n" "ni' - Suc k = n"
        by (cases "ni' - k") auto
      show ?thesis
        using later unfolding n
        by (auto simp: nth_Cons split: nat.splits)
    qed
    show ?thesis using 1 2 3 lt_md by blast
  next
    case False
    then have run: "nearest_loop rounding qlat qlon (enumerate (Suc k) xs) md ni = Inr (md', ni')"
      using Cons.prems by (simp add: x hd)
    note ih = Cons.IH [OF run]
    from ih have 1: "\<not> float_lt md md'" by blast
    from ih have all: "\<forall>j<length xs. query_returns rounding qlat qlon (xs ! j)
              \<and> \<not> float_lt (Finite (query_distance rounding qlat qlon (xs ! j))) md'"
      by blast
    from ih consider (same) "md' = md" "ni' = ni"
      | (later) "float_lt md' md" "Suc k \<le> ni'" "ni' < Suc k + length xs"
          "md' = Finite (query_distance rounding qlat qlon (xs ! (ni' - Suc k)))"
          "\<forall>j < ni' - Suc k. float_lt md' (Finite (query_distance rounding qlat qlon (xs ! j)))"
      by blast
    then show ?thesis
    proof cases
      case same
      have "\<forall>j<length (x # xs). query_returns rounding qlat qlon ((x # xs) ! j)
              \<and> \<not> float_lt (Finite (query_distance rounding qlat qlon ((x # xs) ! j))) md'"
        using False all ret same(1) by (auto simp: nth_Cons split: nat.splits)
      then show ?thesis using 1 same by blast
    next
      case later
      from later(2) obtain n where n: "ni' - k = Suc n" "ni' - Suc k = n"
        by (cases "ni' - k") auto
      have first: "float_lt md' ?d"
        using later(1) False by (rule float_lt_not_trans) simp
      then have le: "\<not> float_lt ?d md'" by (rule float_lt_asym)
      have 2: "\<forall>j<length (x # xs). query_returns rounding qlat qlon ((x # xs) ! j)
              \<and> \<not> float_lt (Finite (query_distance rounding qlat qlon ((x # xs) ! j))) md'"
        using le all ret by (auto simp: nth_Cons split: nat.splits)
      have "k \<le> ni' \<and> ni' < k + length (x # xs)
              \<and> md' = Finite (query_distance rounding qlat qlon ((x # xs) ! (ni' - k)))
              \<and> (\<forall>j < ni' - k.
                    float_lt md' (Finite (query_distance rounding qlat qlon ((x # xs) ! j))))"
        using later first unfolding n
        by (auto simp: nth_Cons split: nat.splits)
      then show ?thesis using 1 2 later(1) by blast
    qed
  qed
qed

lemma route_distance_loop_upto:
  "0 \<le> s \<Longrightarrow> e < int (length rp) \<Longrightarrow>
   route_distance_loop rounding rp [s .. e - 1] acc
   = (if \<forall>i. nat s \<le> i \<and> i < nat e \<longrightarrow> segment_returns rounding rp i
      then Inr (acc + (\<Sum>i = nat s ..< nat e. segment_length rounding rp i))
      else Inl ValueError)"
proof (induction "nat (e - s)" arbitrary: s acc)
  case 0
  then have "nat e \<le> nat s" by simp
  then have "\<forall>i. nat s \<le> i \<and> i < nat e \<longrightarrow> segment_returns rounding rp i" by auto
  then show ?case using 0 by simp
next
  case (Suc m)
  then have se: "s < e" by simp
  have up: "[s .. e - 1] = s # [s + 1 .. e - 1]"
    using se by (simp add: upto_rec1)
  have i1: "py_index rp s = Inr (rp ! nat s)"
    using Suc.prems se by (simp add: py_index_def)
  have i2: "py_index rp (s + 1) = Inr (rp ! Suc (nat s))"
    using Suc.prems se by (simp add: py_index_def nat_add_distrib)
  show ?case
  proof (cases "segment_returns rounding rp (nat s)")
    case False
    then have "route_distance_loop rounding rp [s .. e - 1] acc = Inl ValueError"
      unfolding up
      by (simp add: i1 i2 haversine_distance_cases segment_returns_def case_prod_beta)
    moreover have "\<not> (\<forall>i. nat s \<le> i \<and> i < nat e \<longrightarrow> segment_returns rounding rp i)"
      using False se Suc.prems(1) by (intro notI) (auto dest!: spec [of _ "nat s"])
    ultimately show ?thesis by simp
  next
    case True
    have ih: "route_distance_loop rounding rp [s + 1 .. e - 1] (acc + segment_length rounding rp (nat s))
              = (if \<forall>i. nat (s + 1) \<le> i \<and> i < nat e \<longrightarrow> segment_returns rounding rp i
                 then Inr (acc + segment_length rounding rp (nat s)
                     + (\<Sum>i = nat (s + 1) ..< nat e. segment_length rounding rp i))
                 else Inl ValueError)"
      using Suc.hyps(2) Suc.prems by (intro Suc.hyps(1)) simp_all
    have sum: "(\<Sum>i = nat s ..< nat e. segment_length rounding rp i)
               = segment_length rounding rp (nat s)
                 + (\<Sum>i = nat (s + 1) ..< nat e. segment_length rounding rp i)"
      using se Suc.prems(1) by (simp add: sum.atLeast_Suc_lessThan nat_add_distrib)
    have run: "route_distance_loop rounding rp [s .. e - 1] acc
          = route_distance_loop rounding rp [s + 1 .. e - 1] (acc + segment_length rounding rp (nat s))"
      using True unfolding up
      by (simp add: i1 i2 haversine_distance_cases segment_returns_def segment_length_def
            case_prod_beta)
    have all: "(\<forall>i. nat s \<le> i \<and> i < nat e \<longrightarrow> segment_returns rounding rp i)
               = (\<forall>i. nat (s + 1) \<le> i \<and> i < nat e \<longrightarrow> segment_returns rounding rp i)"
    proof -
      have n: "nat (s + 1) = Suc (nat s)" using Suc.prems(1) by (simp add: nat_add_distrib)
      show ?thesis unfolding n
        using True by (metis Suc_leI le_neq_implies_less Suc_leD)
    qed
    show ?thesis unfolding run ih all sum by simp
  qed
qed

subsection \<open>The search, the evaluation of a trip and the matches\<close>

lemma find_nearest_point_on_route_SomeD:
  assumes "find_nearest_point_on_route rounding qlat qlon rp = Inr (Some r)"
  shows "rp \<noteq> []"
    and "\<forall>i. Suc i < length rp \<longrightarrow> segment_returns rounding rp i"
    and "distances_from_start_of rounding rp
         = Inr (map (cumulative_distance_at rounding rp) [0 ..< length rp])"
    and "route_index r < length rp"
    and "(latitude (point r), longitude (point r)) = rp ! route_index r"
    and "distance_from_start (point r) = cumulative_distance_at rounding rp (route_index r)"
    and "\<forall>j<length rp. query_returns rounding qlat qlon (rp ! j)"
    and "distance_to_point r = Finite (query_distance rounding qlat qlon (rp ! route_index r))"
    and "\<forall>j<length rp. query_distance rounding qlat qlon (rp ! route_index r)
                          \<le> query_distance rounding qlat qlon (rp ! j)"
    and "\<forall>j<route_index r. query_distance rounding qlat qlon (rp ! route_index r)
                            < query_distance rounding qlat qlon (rp ! j)"
proof -
  show ne: "rp \<noteq> []" using assms by (auto simp: find_nearest_point_on_route_def)
  have ds0: "\<exists>ds. distances_from_start_of rounding rp = Inr ds"
    using assms ne by (auto simp: find_nearest_point_on_route_def split: sum.splits)
  then show seg: "\<forall>i. Suc i < length rp \<longrightarrow> segment_returns rounding rp i"
    unfolding distances_from_start_of_eq [OF ne] by (auto split: if_splits)
  then show ds: "distances_from_start_of rounding rp
         = Inr (map (cumulative_distance_at rounding rp) [0 ..< length rp])"
    unfolding distances_from_start_of_eq [OF ne] by simp
  obtain md ni where run: "nearest_loop rounding qlat qlon (enumerate 0 rp) Infinity 0 = Inr (md, ni)"
    using assms ne by (auto simp: find_nearest_point_on_route_def ds split: sum.splits)
  have r: "r = \<lparr>point = \<lparr>latitude = fst (rp ! ni), longitude = snd (rp ! ni),
                           distance_from_start
                             = map (cumulative_distance_at rounding rp) [0 ..< length rp] ! ni\<rparr>,
                  distance_to_point = md, route_index = ni\<rparr>"
    using assms ne by (simp add: find_nearest_point_on_route_def ds run case_prod_beta)
  note spec = nearest_loop_spec [OF run]
  have "0 < length rp" using ne by simp
  with spec have "\<not> float_lt (Finite (query_distance rounding qlat qlon (rp ! 0))) md" by blast
  then have "md \<noteq> Infinity" by auto
  with spec have ni: "ni < length rp"
    and md: "md = Finite (query_distance rounding qlat qlon (rp ! ni))"
    and before: "\<forall>j<ni. float_lt md (Finite (query_distance rounding qlat qlon (rp ! j)))"
    by auto
  from spec have all: "\<forall>j<length rp. query_returns rounding qlat qlon (rp ! j)
          \<and> \<not> float_lt (Finite (query_distance rounding qlat qlon (rp ! j))) md"
    by blast
  show "route_index r < length rp" using ni by (simp add: r)
  show "(latitude (point r), longitude (point r)) = rp ! route_index r" by (simp add: r)
  show "distance_from_start (point r) = cumulative_distance_at rounding rp (route_index r)"
    using ni by (simp add: r)
  show "\<forall>j<length rp. query_returns rounding qlat qlon (rp ! j)" using all by blast
  show "distance_to_point r = Finite (query_distance rounding qlat qlon (rp ! route_index r))"
    by (simp add: r md [symmetric])
  show "\<forall>j<length rp. query_distance rounding qlat qlon (rp ! route_index r)
                          \<le> query_distance rounding qlat qlon (rp ! j)"
    using all unfolding md by (simp add: r not_less)
  show "\<forall>j<route_index r. query_distance rounding qlat qlon (rp ! route_index r)
                            < query_distance rounding qlat qlon (rp ! j)"
    using before unfolding md by (simp add: r)
qed

lemma find_nearest_point_on_route_error:
  assumes "find_nearest_point_on_route rounding qlat qlon rp = Inl e"
  shows "e = ValueError"
proof -
  have ne: "rp \<noteq> []" using assms by (auto simp: find_nearest_point_on_route_def)
  have loop: "nearest_loop rounding qlat qlon ps md ni = Inl e' \<Longrightarrow> e' = ValueError"
    for ps md ni e'
    by (induction ps arbitrary: md ni)
       (auto simp: haversine_distance_cases split: if_splits)
  show ?thesis
    using assms ne loop
    by (auto simp: find_nearest_point_on_route_def distances_from_start_of_eq case_prod_beta
          split: sum.splits if_splits)
qed

lemma Min_query_distance:
  assumes "ni < length rp"
    and "\<forall>j<length rp. query_distance rounding qlat qlon (rp ! ni)
                          \<le> query_distance rounding qlat qlon (rp ! j)"
  shows "Min (query_distance rounding qlat qlon ` set rp) = query_distance rounding qlat qlon (rp ! ni)"
proof (rule Min_eqI)
  show "finite (query_distance rounding qlat qlon ` set rp)" by simp
  show "query_distance rounding qlat qlon (rp ! ni) \<in> query_distance rounding qlat qlon ` set rp"
    using assms(1) by simp
  fix y assume "y \<in> query_distance rounding qlat qlon ` set rp"
  then obtain j where "j < length rp" "y = query_distance rounding qlat qlon (rp ! j)"
    by (auto simp: in_set_conv_nth)
  then show "query_distance rounding qlat qlon (rp ! ni) \<le> y" using assms(2) by simp
qed

lemma calculate_eta_minutes_total:
  "calculate_eta_minutes d s = Inr (if s \<le> 0 then 0 else d / (s * 1000 / 60))"
  by (simp add: calculate_eta_minutes_def Let_def)

lemma calculate_route_distance_in_bounds:
  assumes "0 \<le> s" "e < int (length rp)"
  shows "calculate_route_distance_between_points rounding rp s e =
         (if e \<le> s then Inr 0
          else if \<forall>i. nat s \<le> i \<and> i < nat e \<longrightarrow> segment_returns rounding rp i
          then Inr (\<Sum>i = nat s ..< nat e. segment_length rounding rp i)
          else Inl ValueError)"
  using route_distance_loop_upto [OF assms, of rounding 0]
  by (auto simp: calculate_route_distance_between_points_def)

lemma cumulative_distance_at_mono:
  assumes "\<forall>k<j. segment_returns rounding rp k" and "i \<le> j"
  shows "cumulative_distance_at rounding rp i \<le> cumulative_distance_at rounding rp j"
  unfolding cumulative_distance_at_def
  using assms
  by (intro sum_mono2) (auto simp: segment_length_def segment_returns_def haversine_value_nonneg)

lemma evaluate_trip_SomeD:
  assumes "evaluate_trip rounding decode self trip slat slon dlat dlon seats_required = Inr (Some m)"
  shows "\<exists>rp p d. decode (route_geometry trip) = Inr rp
           \<and> find_nearest_point_on_route rounding slat slon rp = Inr (Some p)
           \<and> find_nearest_point_on_route rounding dlat dlon rp = Inr (Some d)
           \<and> trip_id m = id_trip trip
           \<and> pickup_latitude m = latitude (point p) \<and> pickup_longitude m = longitude (point p)
           \<and> dropoff_latitude m = latitude (point d) \<and> dropoff_longitude m = longitude (point d)
           \<and> pickup_distance_meters m = distance_to_point p
           \<and> dropoff_distance_meters m = distance_to_point d"
  using assms
  by (auto simp: evaluate_trip_def split: if_splits sum.splits option.splits)

lemma evaluate_trip_early_exit:
  assumes "\<not> is_ride_requests_allowed trip \<or> Trip.available_seats trip < seats_required
           \<or> route_geometry trip = [] \<or> (\<exists>e. decode (route_geometry trip) = Inl e)
           \<or> decode (route_geometry trip) = Inr []"
  shows "evaluate_trip rounding decode self trip slat slon dlat dlon seats_required = Inr None"
  using assms by (auto simp: evaluate_trip_def)

lemma evaluate_trip_returns:
  assumes "evaluate_trip rounding decode self trip slat slon dlat dlon seats_required = Inr r"
  shows "(r \<noteq> None) = match_conditions rounding decode self trip slat slon dlat dlon seats_required"
proof (cases "is_ride_requests_allowed trip \<and> seats_required \<le> Trip.available_seats trip
              \<and> route_geometry trip \<noteq> []")
  case False
  then have "evaluate_trip rounding decode self trip slat slon dlat dlon seats_required
             = Inr None"
    by (intro evaluate_trip_early_exit) auto
  with assms have "r = None" by simp
  moreover have "\<not> match_conditions rounding decode self trip slat slon dlat dlon seats_required"
    using False by (auto simp: match_conditions_def)
  ultimately show ?thesis by simp
next
  case pre: True
  show ?thesis
  proof (cases "decode (route_geometry trip)")
    case (Inl e)
    then show ?thesis using pre assms by (auto simp: evaluate_trip_def match_conditions_def)
  next
    case (Inr rp)
    show ?thesis
    proof (cases "rp = []")
      case True
      then show ?thesis using pre Inr assms by (auto simp: evaluate_trip_def match_conditions_def)
    next
      case ne: False
      show ?thesis
      proof (cases "find_nearest_point_on_route rounding slat slon rp")
        case (Inl e)
        then show ?thesis using pre Inr ne assms by (auto simp: evaluate_trip_def)
      next
        case p: (Inr po)
        show ?thesis
        proof (cases po)
          case None
          then show ?thesis
            using pre Inr ne p assms by (auto simp: evaluate_trip_def match_conditions_def)
        next
          case (Some pr)
          show ?thesis
          proof (cases "within_radius self pr")
            case False
            then show ?thesis
              using pre Inr ne p Some assms
              by (auto simp: evaluate_trip_def match_conditions_def within_radius_def)
          next
            case wp: True
            show ?thesis
            proof (cases "find_nearest_point_on_route rounding dlat dlon rp")
              case (Inl e)
              then show ?thesis
                using pre Inr ne p Some wp assms
                by (auto simp: evaluate_trip_def within_radius_def)
            next
              case d: (Inr dopt)
              show ?thesis
              proof (cases dopt)
                case None
                then show ?thesis
                  using pre Inr ne p Some wp d assms
                  by (auto simp: evaluate_trip_def match_conditions_def within_radius_def)
              next
                case dr: (Some dres)
                show ?thesis
                  using pre Inr ne p Some wp d dr assms
                  by (auto simp: evaluate_trip_def match_conditions_def within_radius_def
                        split: if_splits sum.splits)
              qed
            qed
          qed
        qed
      qed
    qed
  qed
qed

lemma evaluate_trip_error:
  assumes "evaluate_trip rounding decode self trip slat slon dlat dlon seats_required = Inl e"
  shows "e = ValueError"
proof -
  have s: "find_nearest_point_on_route rounding qlat qlon rp = Inr (Some p) \<Longrightarrow>
           find_nearest_point_on_route rounding qlat' qlon' rp = Inr (Some d) \<Longrightarrow>
           calculate_route_distance_between_points rounding rp (int (route_index p))
             (int (route_index d)) = Inl e' \<Longrightarrow> e' = ValueError"
    for qlat qlon qlat' qlon' rp p d e'
    using calculate_route_distance_in_bounds [of "int (route_index p)" "int (route_index d)" rp rounding]
      find_nearest_point_on_route_SomeD(4) [of rounding qlat' qlon' rp d]
    by (auto split: if_splits)
  show ?thesis
    using assms
    by (auto simp: evaluate_trip_def calculate_eta_minutes_total
          split: if_splits sum.splits option.splits
          dest: find_nearest_point_on_route_error s)
qed

lemma find_nearest_point_on_route_raises:
  assumes "p \<in> set rp" and "\<not> query_returns rounding qlat qlon p"
  shows "find_nearest_point_on_route rounding qlat qlon rp = Inl ValueError"
proof (cases "find_nearest_point_on_route rounding qlat qlon rp")
  case (Inl e)
  then show ?thesis using find_nearest_point_on_route_error [OF Inl] by simp
next
  case (Inr ro)
  show ?thesis
  proof (cases ro)
    case None
    then have "rp = []"
      using Inr
      by (auto simp: find_nearest_point_on_route_def case_prod_beta
            split: if_splits sum.splits)
    then show ?thesis using assms(1) by simp
  next
    case (Some r)
    from assms(1) obtain j where "j < length rp" "rp ! j = p"
      by (auto simp: in_set_conv_nth)
    with find_nearest_point_on_route_SomeD(7) [OF Inr [unfolded Some]] assms(2)
    show ?thesis by blast
  qed
qed

lemma evaluate_trip_raises:
  assumes "is_ride_requests_allowed trip" and "seats_required \<le> Trip.available_seats trip"
    and "route_geometry trip \<noteq> []" and "decode (route_geometry trip) = Inr rp"
    and "p \<in> set rp" and "\<not> query_returns rounding slat slon p"
  shows "evaluate_trip rounding decode self trip slat slon dlat dlon seats_required
         = Inl ValueError"
proof -
  have "rp \<noteq> []" using assms(5) by auto
  then show ?thesis
    using assms(1-4) find_nearest_point_on_route_raises [OF assms(5) assms(6)]
    by (simp add: evaluate_trip_def)
qed

lemma antipode_query_raises:
  assumes "0 < rounding 82 180 (- 82) 0"
  shows "\<not> query_returns rounding 82 180 (- 82, 0)"
  using assms haversine_a_antipode [of 82 180]
  by (simp add: query_returns_def haversine_returns_def)

lemma find_matches_loop_append:
  "find_matches_loop rounding decode self (xs @ ys) slat slon dlat dlon seats_required acc =
     (case find_matches_loop rounding decode self xs slat slon dlat dlon seats_required acc of
        Inl e \<Rightarrow> Inl e
      | Inr acc' \<Rightarrow>
          find_matches_loop rounding decode self ys slat slon dlat dlon seats_required acc')"
  by (induction xs arbitrary: acc) (auto split: sum.splits option.splits)

lemma find_matches_loop_all_return:
  assumes "\<forall>trip\<in>set trips.
             \<exists>r. evaluate_trip rounding decode self trip slat slon dlat dlon seats_required = Inr r"
  shows "find_matches_loop rounding decode self trips slat slon dlat dlon seats_required acc =
         Inr (acc @ List.map_filter
                (\<lambda>trip. case evaluate_trip rounding decode self trip slat slon dlat dlon
                                seats_required of
                           Inl e \<Rightarrow> None | Inr r \<Rightarrow> r) trips)"
  using assms
proof (induction trips arbitrary: acc)
  case Nil
  then show ?case by (simp add: List.map_filter_simps)
next
  case (Cons trip trips)
  then obtain r where r: "evaluate_trip rounding decode self trip slat slon dlat dlon
                            seats_required = Inr r"
    by auto
  have ih: "find_matches_loop rounding decode self trips slat slon dlat dlon seats_required acc' =
         Inr (acc' @ List.map_filter
                (\<lambda>trip. case evaluate_trip rounding decode self trip slat slon dlat dlon
                                seats_required of
                           Inl e \<Rightarrow> None | Inr r \<Rightarrow> r) trips)" for acc'
    using Cons.prems by (intro Cons.IH) simp
  show ?case
    by (cases r) (simp_all add: r ih List.map_filter_simps)
qed

lemma find_matches_loop_InrD:
  assumes "find_matches_loop rounding decode self trips slat slon dlat dlon seats_required acc
           = Inr ms"
  shows "\<forall>trip\<in>set trips.
           \<exists>r. evaluate_trip rounding decode self trip slat slon dlat dlon seats_required = Inr r"
  using assms
  by (induction trips arbitrary: acc) (auto split: sum.splits option.splits)

lemma find_matches_all_return:
  assumes "\<forall>trip\<in>set trips.
             \<exists>r. evaluate_trip rounding decode self trip slat slon dlat dlon seats_required = Inr r"
  shows "find_matches rounding decode self trips slat slon dlat dlon seats_required =
         Inr (List.map_filter
                (\<lambda>trip. case evaluate_trip rounding decode self trip slat slon dlat dlon
                                seats_required of
                           Inl e \<Rightarrow> None | Inr r \<Rightarrow> r) trips)"
  using find_matches_loop_all_return [OF assms, of "[]"] by (simp add: find_matches_def)


subsection \<open>The example data\<close>

lemma example_route: "polyline_decode ''???_ibE?_ibE'' = Inr [(0, 0), (0, 1), (0, 2)]"
  by (simp add: polyline_decode_def zigzag_def)

lemma broken_route: "polyline_decode ''???_ib'' = Inl IndexError"
  by (simp add: polyline_decode_def zigzag_def)

lemma antipode_route: "polyline_decode ''~rnsN?'' = Inr [(- 82, 0)]"
  by (simp add: polyline_decode_def zigzag_def)

lemmas eval_nearest =
  find_nearest_point_on_route_def distances_from_start_of_def haversine_distance_exact
  haversine_equator EARTH_RADIUS_METERS_def upt_conv_Cons

lemma nearest_at_0: "find_nearest_point_on_route no_rounding 0 0 [(0, 0), (0, 1), (0, 2)] =
  Inr (Some \<lparr>point = \<lparr>latitude = 0, longitude = 0, distance_from_start = 0\<rparr>,
       distance_to_point = Finite 0, route_index = 0\<rparr>)"
  by (simp add: eval_nearest)

lemma nearest_at_1: "find_nearest_point_on_route no_rounding 0 1 [(0, 0), (0, 1), (0, 2)] =
  Inr (Some \<lparr>point = \<lparr>latitude = 0, longitude = 1, distance_from_start = 6371000 * pi / 180\<rparr>,
       distance_to_point = Finite 0, route_index = 1\<rparr>)"
  by (simp add: eval_nearest)

lemma nearest_at_2: "find_nearest_point_on_route no_rounding 0 2 [(0, 0), (0, 1), (0, 2)] =
  Inr (Some \<lparr>point = \<lparr>latitude = 0, longitude = 2, distance_from_start = 6371000 * pi / 90\<rparr>,
       distance_to_point = Finite 0, route_index = 2\<rparr>)"
  by (simp add: eval_nearest)

lemma near_start:
  "find_nearest_point_on_route no_rounding 0 (1 / 1000) [(0, 0), (0, 1), (0, 2)] =
  Inr (Some \<lparr>point = \<lparr>latitude = 0, longitude = 0, distance_from_start = 0\<rparr>,
       distance_to_point = Finite (6371 * pi / 180), route_index = 0\<rparr>)"
  by (simp add: eval_nearest)

lemma near_end:
  "find_nearest_point_on_route no_rounding 0 (1999 / 1000) [(0, 0), (0, 1), (0, 2)] =
  Inr (Some \<lparr>point = \<lparr>latitude = 0, longitude = 2, distance_from_start = 6371000 * pi / 90\<rparr>,
       distance_to_point = Finite (6371 * pi / 180), route_index = 2\<rparr>)"
  by (simp add: eval_nearest)

lemma near_start_distance:
  "haversine_distance no_rounding 0 (1 / 1000) 0 0 = Inr (6371 * pi / 180)"
  by (simp add: haversine_distance_exact haversine_equator EARTH_RADIUS_METERS_def)

lemma near_end_distance:
  "haversine_distance no_rounding 0 (1999 / 1000) 0 2 = Inr (6371 * pi / 180)"
  by (simp add: haversine_distance_exact haversine_equator EARTH_RADIUS_METERS_def)

lemma example_offset_within_radius: "6371 * pi / 180 \<le> (500::real)"
  using pi_less_4 by simp

lemma example_trip_matches:
  "\<exists>m. evaluate_trip no_rounding polyline_decode example_service example_trip 0 0 0 2 1
          = Inr (Some m)
       \<and> trip_id m = 7"
  by (simp add: evaluate_trip_def example_trip_def example_service_def example_route
        nearest_at_0 nearest_at_2 calculate_route_distance_in_bounds calculate_eta_minutes_total
        segment_returns_def no_rounding_returns)

lemma second_trip_matches:
  "\<exists>m. evaluate_trip no_rounding polyline_decode example_service second_trip 0 0 0 2 1
          = Inr (Some m)
       \<and> trip_id m = 9"
  by (simp add: evaluate_trip_def second_trip_def example_service_def example_route
        nearest_at_0 nearest_at_2 calculate_route_distance_in_bounds calculate_eta_minutes_total
        segment_returns_def no_rounding_returns)

lemma nan_radius_is_matched:
  "\<not> float_le (Finite (6371 * pi / 180)) NaN
   \<and> (\<exists>m. evaluate_trip no_rounding polyline_decode (example_service\<lparr>radius_meters := NaN\<rparr>)
             example_trip 0 (1 / 1000) 0 (1999 / 1000) 1 = Inr (Some m)
          \<and> pickup_distance_meters m = Finite (6371 * pi / 180))"
  by (simp add: float_le_def evaluate_trip_def example_trip_def example_service_def example_route
        near_start near_end calculate_route_distance_in_bounds calculate_eta_minutes_total
        segment_returns_def no_rounding_returns)

lemma antipode_rounding_positive: "0 < antipode_rounding 82 180 (- 82) 0"
  by (simp add: antipode_rounding_def)


subsection \<open>The dispatch of inbound messages\<close>

lemma receive_json_unknown_hashable:
  assumes "message_type \<notin> {JStr ''PUBLISH_LOCATION'', JStr ''SUBSCRIBE_TO_TRIP_LOCATION'',
                             JStr ''UNSUBSCRIBE_FROM_TRIP_LOCATION''}"
    and "\<forall>xs. message_type \<noteq> JArr xs" and "\<forall>kvs. message_type \<noteq> JObj kvs"
    and "map_of (rev members) ''type'' = Some message_type"
  shows "receive_json handle_publish_location handle_subscribe handle_unsubscribe self (JObj members)
         = Inr (self\<lparr>sent := sent self @ [ERROR (Unknown_message_type message_type)]\<rparr>)"
  using assms
  by (cases message_type)
     (auto simp: receive_json_def py_get_def handlers_get_def handlers_def send_json_def)

section \<open>The claims\<close>

text \<open>
  C1. The claim is that the evaluation of a trip returns a \<open>MatchedTrip\<close> exactly when the
  seven conditions hold and None, for no match, at the first one that fails. It fails for
  every trip that passes the first four checks and whose route goes through a point
  antipodal to the rider's pickup, here \<open>(-82, 0)\<close> for the pickup \<open>(82, 180)\<close>: the
  computed \<^verbatim>\<open>a\<close> exceeds 1, the search raises ValueError, and the evaluation returns
  neither a match nor None. (When the evaluation returns, it returns a match exactly when
  the conditions hold as the code reads them, \<open>evaluate_trip_returns\<close>; a trip that fails
  one of the first four checks returns None before any search,
  \<open>evaluate_trip_early_exit\<close>; a NaN radius passes the two radius checks at any distance,
  \<open>nan_radius_is_matched\<close>.)
\<close>

theorem evaluate_trip_raises_at_antipode:
  assumes "0 < rounding 82 180 (- 82) 0"
    and "is_ride_requests_allowed trip" and "seats_required \<le> Trip.available_seats trip"
    and "route_geometry trip \<noteq> []" and "decode (route_geometry trip) = Inr route_points"
    and "(- 82, 0) \<in> set route_points"
  shows "evaluate_trip rounding decode self trip 82 180 rider_dest_lat rider_dest_lon
           seats_required = Inl ValueError"
  using assms(2-6) antipode_query_raises [of rounding, OF assms(1)]
  by (rule evaluate_trip_raises)

text \<open>
  With the rounding error that double arithmetic makes at this input, the decoder of the
  polyline format and a trip whose route is the one point.
\<close>

theorem evaluate_trip_raises_at_antipode_witness:
  "0 < antipode_rounding 82 180 (- 82) 0
   \<and> is_ride_requests_allowed antipode_trip
   \<and> 1 \<le> Trip.available_seats antipode_trip
   \<and> route_geometry antipode_trip \<noteq> []
   \<and> polyline_decode (route_geometry antipode_trip) = Inr [(- 82, 0)]
   \<and> (- 82, 0) \<in> set [(- 82 :: real, 0 :: real)]
   \<and> evaluate_trip antipode_rounding polyline_decode example_service antipode_trip 82 180 0 2 1
       = Inl ValueError"
proof -
  have g: "polyline_decode (route_geometry antipode_trip) = Inr [(- 82, 0)]"
    by (simp add: antipode_trip_def antipode_route)
  have "evaluate_trip antipode_rounding polyline_decode example_service antipode_trip 82 180 0 2 1
        = Inl ValueError"
    by (rule evaluate_trip_raises_at_antipode
          [where decode = polyline_decode and trip = antipode_trip
             and rounding = antipode_rounding, OF antipode_rounding_positive _ _ _ g])
       (simp_all add: antipode_trip_def)
  then show ?thesis
    using g antipode_rounding_positive by (simp add: antipode_trip_def)
qed

text \<open>
  C2. When the nearest route points to the pickup and to the dropoff are both within the
  radius and the index of the dropoff's point is less than or equal to the index of the
  pickup's point, the trip is not a match, whatever its other fields; equal indices are
  included.
\<close>

theorem dropoff_not_after_pickup_no_match:
  assumes "decode (route_geometry trip) = Inr rp"
    and "find_nearest_point_on_route rounding slat slon rp = Inr (Some p)"
    and "float_le (distance_to_point p) (radius_meters self)"
    and "find_nearest_point_on_route rounding dlat dlon rp = Inr (Some d)"
    and "float_le (distance_to_point d) (radius_meters self)"
    and "route_index d \<le> route_index p"
  shows "evaluate_trip rounding decode self trip slat slon dlat dlon seats_required = Inr None"
proof -
  have "rp \<noteq> []" using assms(2) by (auto simp: find_nearest_point_on_route_def)
  then show ?thesis
    using assms by (simp add: evaluate_trip_def)
qed

text \<open>
  At the example trip: pickup at the second route point with dropoff at the first, and
  pickup and dropoff both at the second.
\<close>

theorem dropoff_not_after_pickup_no_match_witness:
  "(\<exists>rp p d.
      polyline_decode (route_geometry example_trip) = Inr rp
    \<and> find_nearest_point_on_route no_rounding 0 1 rp = Inr (Some p)
    \<and> float_le (distance_to_point p) (radius_meters example_service)
    \<and> find_nearest_point_on_route no_rounding 0 0 rp = Inr (Some d)
    \<and> float_le (distance_to_point d) (radius_meters example_service)
    \<and> route_index d \<le> route_index p)
   \<and> evaluate_trip no_rounding polyline_decode example_service example_trip 0 1 0 0 1 = Inr None
   \<and> evaluate_trip no_rounding polyline_decode example_service example_trip 0 1 0 1 1 = Inr None"
proof -
  have g: "polyline_decode (route_geometry example_trip) = Inr [(0, 0), (0, 1), (0, 2)]"
    by (simp add: example_trip_def example_route)
  have r: "float_le (Finite 0) (radius_meters example_service)"
    by (simp add: example_service_def float_le_def)
  have "evaluate_trip no_rounding polyline_decode example_service example_trip 0 1 0 0 1
        = Inr None"
    by (rule dropoff_not_after_pickup_no_match
          [where decode = polyline_decode and trip = example_trip,
           OF g nearest_at_1 _ nearest_at_0]) (simp_all add: r)
  moreover
  have "evaluate_trip no_rounding polyline_decode example_service example_trip 0 1 0 1 1
        = Inr None"
    by (rule dropoff_not_after_pickup_no_match
          [where decode = polyline_decode and trip = example_trip,
           OF g nearest_at_1 _ nearest_at_1]) (simp_all add: r)
  ultimately show ?thesis
    using g nearest_at_0 nearest_at_1 r by simp
qed

text \<open>
  C3. The claim is that \<open>find_nearest_point_on_route\<close> returns a result for every route
  that is not empty. It fails for every route through the point \<open>(-82, 0)\<close> and the
  query point \<open>(82, 180)\<close>: the computed \<^verbatim>\<open>a\<close> exceeds 1 and the search raises
  ValueError. (When the search returns, its result is the one claimed: the least computed
  distance, the lowest index at that distance and the coordinates at that index,
  \<open>find_nearest_point_on_route_SomeD\<close>.)
\<close>

theorem find_nearest_point_on_route_raises_at_antipode:
  assumes "0 < rounding 82 180 (- 82) 0" and "(- 82, 0) \<in> set route_points"
  shows "find_nearest_point_on_route rounding 82 180 route_points = Inl ValueError"
  using assms(2) antipode_query_raises [of rounding, OF assms(1)]
  by (rule find_nearest_point_on_route_raises)

text \<open>
  With the rounding error that double arithmetic makes at this input, on the route of
  the one point.
\<close>

theorem find_nearest_point_on_route_raises_at_antipode_witness:
  "0 < antipode_rounding 82 180 (- 82) 0
   \<and> (- 82, 0) \<in> set [(- 82 :: real, 0 :: real)]
   \<and> [(- 82, 0)] \<noteq> ([] :: route)
   \<and> find_nearest_point_on_route antipode_rounding 82 180 [(- 82, 0)] = Inl ValueError"
  using find_nearest_point_on_route_raises_at_antipode [of antipode_rounding "[(- 82, 0)]"]
    antipode_rounding_positive
  by simp

text \<open>
  C4. Whenever the first loop of the search returns the list \<open>distances_from_start\<close> for a
  route that is not empty, the list has one entry for each route point, starts with 0, each
  later entry is the entry before plus the distance that \<open>haversine_distance\<close> returned for
  the segment between the two points, that distance is not negative, and the list is
  non-decreasing. The \<open>distance_from_start\<close> of every result of the search is the entry of
  that list at its \<open>route_index\<close>. Whatever \<open>haversine_distance\<close> returns is not negative.
\<close>

theorem distances_from_start_nondecreasing:
  "(route_points \<noteq> [] \<and> distances_from_start_of rounding route_points = Inr ds \<longrightarrow>
      length ds = length route_points
    \<and> ds ! 0 = 0
    \<and> (\<forall>i. 0 < i \<and> i < length route_points \<longrightarrow>
          (\<exists>seg. haversine_distance rounding
                   (fst (route_points ! (i - 1))) (snd (route_points ! (i - 1)))
                   (fst (route_points ! i)) (snd (route_points ! i)) = Inr seg
               \<and> 0 \<le> seg
               \<and> ds ! i = ds ! (i - 1) + seg))
    \<and> sorted ds)
   \<and> (find_nearest_point_on_route rounding query_lat query_lon route_points = Inr (Some r) \<longrightarrow>
        (\<exists>ds'. distances_from_start_of rounding route_points = Inr ds'
             \<and> route_index r < length ds'
             \<and> distance_from_start (point r) = ds' ! route_index r))
   \<and> (haversine_distance rounding lat1 lon1 lat2 lon2 = Inr x \<longrightarrow> 0 \<le> x)"
proof (intro conjI impI)
  assume h: "route_points \<noteq> [] \<and> distances_from_start_of rounding route_points = Inr ds"
  then have ne: "route_points \<noteq> []" by simp
  from h have seg: "\<forall>i. Suc i < length route_points \<longrightarrow> segment_returns rounding route_points i"
    unfolding distances_from_start_of_eq [OF ne] by (auto split: if_splits)
  from h seg have ds: "ds = map (cumulative_distance_at rounding route_points)
                              [0 ..< length route_points]"
    unfolding distances_from_start_of_eq [OF ne] by simp
  show "length ds = length route_points" by (simp add: ds)
  show "ds ! 0 = 0" using ne by (simp add: ds cumulative_distance_at_def)
  show "\<forall>i. 0 < i \<and> i < length route_points \<longrightarrow>
          (\<exists>seg. haversine_distance rounding
                   (fst (route_points ! (i - 1))) (snd (route_points ! (i - 1)))
                   (fst (route_points ! i)) (snd (route_points ! i)) = Inr seg
               \<and> 0 \<le> seg
               \<and> ds ! i = ds ! (i - 1) + seg)"
  proof (intro allI impI)
    fix i assume i: "0 < i \<and> i < length route_points"
    then obtain j where j: "i = Suc j" by (cases i) auto
    have ret: "segment_returns rounding route_points j" using seg i j by simp
    have "haversine_distance rounding (fst (route_points ! j)) (snd (route_points ! j))
            (fst (route_points ! Suc j)) (snd (route_points ! Suc j))
          = Inr (segment_length rounding route_points j)"
      using ret by (simp add: haversine_distance_cases segment_returns_def segment_length_def)
    moreover have "0 \<le> segment_length rounding route_points j"
      using ret by (simp add: segment_returns_def segment_length_def haversine_value_nonneg)
    moreover have "ds ! Suc j = ds ! j + segment_length rounding route_points j"
      using i j by (simp add: ds cumulative_distance_at_def)
    ultimately show "\<exists>seg. haversine_distance rounding
                   (fst (route_points ! (i - 1))) (snd (route_points ! (i - 1)))
                   (fst (route_points ! i)) (snd (route_points ! i)) = Inr seg
               \<and> 0 \<le> seg
               \<and> ds ! i = ds ! (i - 1) + seg"
      unfolding j by simp
  qed
  show "sorted ds"
    unfolding ds sorted_iff_nth_mono
  proof (intro allI impI)
    fix i j
    assume ij: "i \<le> j"
      and j: "j < length (map (cumulative_distance_at rounding route_points)
                            [0 ..< length route_points])"
    then have "\<forall>k<j. segment_returns rounding route_points k" using seg by simp
    then have "cumulative_distance_at rounding route_points i
               \<le> cumulative_distance_at rounding route_points j"
      using ij by (rule cumulative_distance_at_mono)
    then show "map (cumulative_distance_at rounding route_points) [0 ..< length route_points] ! i
               \<le> map (cumulative_distance_at rounding route_points)
                    [0 ..< length route_points] ! j"
      using ij j by simp
  qed
next
  assume f: "find_nearest_point_on_route rounding query_lat query_lon route_points = Inr (Some r)"
  note D = find_nearest_point_on_route_SomeD [OF f]
  show "\<exists>ds'. distances_from_start_of rounding route_points = Inr ds'
             \<and> route_index r < length ds'
             \<and> distance_from_start (point r) = ds' ! route_index r"
    using D(3) D(4) D(6) by simp
next
  assume "haversine_distance rounding lat1 lon1 lat2 lon2 = Inr x"
  from haversine_distance_InrD [OF this] show "0 \<le> x"
    by (simp add: haversine_value_nonneg)
qed

text \<open>
  At the example route, with the result of the search for the second route point.
\<close>

theorem distances_from_start_nondecreasing_witness:
  "\<exists>ds r. [(0, 0), (0, 1), (0, 2)] \<noteq> ([] :: route)
     \<and> distances_from_start_of no_rounding [(0, 0), (0, 1), (0, 2)] = Inr ds
     \<and> ds = [0, 6371000 * pi / 180, 6371000 * pi / 90]
     \<and> sorted ds
     \<and> find_nearest_point_on_route no_rounding 0 1 [(0, 0), (0, 1), (0, 2)] = Inr (Some r)
     \<and> route_index r = 1
     \<and> distance_from_start (point r) = ds ! route_index r
     \<and> distance_from_start (point r) = 6371000 * pi / 180
     \<and> haversine_distance no_rounding 0 0 0 1 = Inr (6371000 * pi / 180)
     \<and> (0::real) \<le> 6371000 * pi / 180"
proof -
  define rp :: route where "rp = [(0, 0), (0, 1), (0, 2)]"
  define ds :: "real list" where "ds = [0, 6371000 * pi / 180, 6371000 * pi / 90]"
  define r where "r = \<lparr>point = \<lparr>latitude = 0, longitude = 1,
                                  distance_from_start = 6371000 * pi / 180\<rparr>,
                        distance_to_point = Finite 0, route_index = 1\<rparr>"
  have ne: "rp \<noteq> []" by (simp add: rp_def)
  have ev: "distances_from_start_of no_rounding rp = Inr ds"
    by (simp add: rp_def ds_def eval_nearest)
  have f: "find_nearest_point_on_route no_rounding 0 1 rp = Inr (Some r)"
    unfolding rp_def r_def by (rule nearest_at_1)
  have hv: "haversine_distance no_rounding 0 0 0 1 = Inr (6371000 * pi / 180)"
    by (simp add: haversine_distance_exact haversine_equator EARTH_RADIUS_METERS_def)
  from distances_from_start_nondecreasing
         [of rp no_rounding ds 0 1 r 0 0 0 1 "6371000 * pi / 180"] ne ev f hv
  have "sorted ds" "distance_from_start (point r) = ds ! route_index r"
    "(0::real) \<le> 6371000 * pi / 180"
    by simp_all
  then show ?thesis
    using ne ev f hv unfolding rp_def
    by (intro exI [of _ ds] exI [of _ r]) (simp add: r_def ds_def)
qed



text \<open>
  C6. \<open>calculate_eta_minutes\<close> returns 0 for every speed that is not positive, returns the
  distance divided by \<open>speed_kmh * 1000 / 60\<close> for every positive speed, never raises (the
  divisor is never zero), and gives 60 minutes for 30000 m at 30 km/h.
\<close>

theorem calculate_eta_minutes_spec:
  "(speed_kmh \<le> 0 \<longrightarrow> calculate_eta_minutes distance_meters speed_kmh = Inr 0)
   \<and> (0 < speed_kmh \<longrightarrow>
        calculate_eta_minutes distance_meters speed_kmh
        = Inr (distance_meters / (speed_kmh * 1000 / 60)))
   \<and> (\<forall>e. calculate_eta_minutes distance_meters speed_kmh \<noteq> Inl e)
   \<and> calculate_eta_minutes 30000 30 = Inr 60"
  by (simp add: calculate_eta_minutes_def Let_def)

text \<open>
  At the speeds 0, -5 and 30.
\<close>

theorem calculate_eta_minutes_spec_witness:
  "(0::real) \<le> 0 \<and> calculate_eta_minutes 1234 0 = Inr 0
   \<and> (-5::real) \<le> 0 \<and> calculate_eta_minutes 1234 (-5) = Inr 0
   \<and> (0::real) < 30 \<and> calculate_eta_minutes 15000 30 = Inr 30"
  using calculate_eta_minutes_spec [of 0 1234] calculate_eta_minutes_spec [of "-5" 1234]
    calculate_eta_minutes_spec [of 30 15000]
  by simp

text \<open>
  C7. A trip whose geometry is empty or fails to decode evaluates to None, without an
  exception, and \<open>find_matches\<close> does on every list of trips that contains it what it does
  on the list without that trip.
\<close>

theorem undecodable_trip_skipped:
  assumes "route_geometry trip = [] \<or> (\<exists>e. decode (route_geometry trip) = Inl e)"
  shows "evaluate_trip rounding decode self trip slat slon dlat dlon seats_required = Inr None
       \<and> find_matches rounding decode self (before @ trip # after) slat slon dlat dlon
           seats_required
         = find_matches rounding decode self (before @ after) slat slon dlat dlon seats_required"
proof -
  have none: "evaluate_trip rounding decode self trip slat slon dlat dlon seats_required = Inr None"
    using assms by (intro evaluate_trip_early_exit) auto
  show ?thesis
    by (simp add: find_matches_def find_matches_loop_append none split: sum.splits)
qed

text \<open>
  The broken trip between the example trip and the second trip.
\<close>

theorem undecodable_trip_skipped_witness:
  "(route_geometry broken_trip = [] \<or> (\<exists>e. polyline_decode (route_geometry broken_trip) = Inl e))
   \<and> evaluate_trip no_rounding polyline_decode example_service broken_trip 0 0 0 2 1 = Inr None
   \<and> (\<exists>ms. find_matches no_rounding polyline_decode example_service
              ([example_trip] @ broken_trip # [second_trip]) 0 0 0 2 1 = Inr ms
          \<and> find_matches no_rounding polyline_decode example_service
              ([example_trip] @ [second_trip]) 0 0 0 2 1 = Inr ms
          \<and> map trip_id ms = [7, 9])"
proof -
  have h: "route_geometry broken_trip = [] \<or> (\<exists>e. polyline_decode (route_geometry broken_trip) = Inl e)"
    by (simp add: broken_trip_def broken_route)
  from example_trip_matches second_trip_matches
  have "\<exists>ms. find_matches no_rounding polyline_decode example_service
              ([example_trip] @ [second_trip]) 0 0 0 2 1 = Inr ms
           \<and> map trip_id ms = [7, 9]"
    by (auto simp: find_matches_def)
  with undecodable_trip_skipped
         [where decode = polyline_decode and trip = broken_trip and self = example_service
            and rounding = no_rounding
            and slat = 0 and slon = 0 and dlat = 0 and dlon = 2 and seats_required = 1
            and before = "[example_trip]" and after = "[second_trip]", OF h]
  show ?thesis using h by auto
qed



text \<open>
  C9. The claim is that every inbound message whose type is none of the three known ones is
  answered with an ERROR message and leaves the connection otherwise untouched. It fails
  for a message whose \<^verbatim>\<open>type\<close> member is a JSON array or object: the lookup in
  \<^verbatim>\<open>handlers\<close> raises TypeError before anything is sent, here for the message
  \<^verbatim>\<open>{"type": [], "data": {}}\<close>. For every other type the answer is the one claimed
  (\<open>receive_json_unknown_hashable\<close>).
\<close>

theorem receive_json_unhashable_type_raises:
  "receive_json handle_publish_location handle_subscribe handle_unsubscribe self
     (JObj [(''type'', JArr []), (''data'', JObj [])]) = Inl TypeError"
  by (simp add: receive_json_def py_get_def handlers_get_def)

text \<open>
  C10. Every \<open>MatchedTrip\<close> that \<open>find_matches\<close> returns belongs to one of the trips, and
  its pickup and dropoff coordinates are the route points at the indices of the two nearest
  points of that trip's decoded route, and its pickup and dropoff distances are the
  distances that \<open>haversine_distance\<close> returns from the rider's two query points to those
  route points.
\<close>

theorem matched_trip_fields:
  assumes "find_matches rounding decode self trips slat slon dlat dlon seats_required = Inr ms"
    and "m \<in> set ms"
  shows "\<exists>trip rp p d pd dd.
           trip \<in> set trips \<and> trip_id m = id_trip trip
         \<and> decode (route_geometry trip) = Inr rp
         \<and> find_nearest_point_on_route rounding slat slon rp = Inr (Some p)
         \<and> find_nearest_point_on_route rounding dlat dlon rp = Inr (Some d)
         \<and> route_index p < length rp \<and> route_index d < length rp
         \<and> (pickup_latitude m, pickup_longitude m) = rp ! route_index p
         \<and> (dropoff_latitude m, dropoff_longitude m) = rp ! route_index d
         \<and> haversine_distance rounding slat slon (pickup_latitude m) (pickup_longitude m) = Inr pd
         \<and> pickup_distance_meters m = Finite pd
         \<and> haversine_distance rounding dlat dlon (dropoff_latitude m) (dropoff_longitude m) = Inr dd
         \<and> dropoff_distance_meters m = Finite dd"
proof -
  have all: "\<forall>trip\<in>set trips.
           \<exists>r. evaluate_trip rounding decode self trip slat slon dlat dlon seats_required = Inr r"
    using assms(1) unfolding find_matches_def by (rule find_matches_loop_InrD)
  from assms obtain trip where trip: "trip \<in> set trips"
    "evaluate_trip rounding decode self trip slat slon dlat dlon seats_required = Inr (Some m)"
    unfolding find_matches_all_return [OF all]
    by (auto simp: List.map_filter_def split: sum.splits)
  from evaluate_trip_SomeD [OF trip(2)] obtain rp p d where e:
    "decode (route_geometry trip) = Inr rp"
    "find_nearest_point_on_route rounding slat slon rp = Inr (Some p)"
    "find_nearest_point_on_route rounding dlat dlon rp = Inr (Some d)"
    "trip_id m = id_trip trip"
    "pickup_latitude m = latitude (point p)" "pickup_longitude m = longitude (point p)"
    "dropoff_latitude m = latitude (point d)" "dropoff_longitude m = longitude (point d)"
    "pickup_distance_meters m = distance_to_point p"
    "dropoff_distance_meters m = distance_to_point d"
    by blast
  note P = find_nearest_point_on_route_SomeD [OF e(2)]
  note D = find_nearest_point_on_route_SomeD [OF e(3)]
  have pc: "(pickup_latitude m, pickup_longitude m) = rp ! route_index p"
    using P(5) e(5) e(6) by simp
  have dc: "(dropoff_latitude m, dropoff_longitude m) = rp ! route_index d"
    using D(5) e(7) e(8) by simp
  have "query_returns rounding slat slon (rp ! route_index p)"
    using P(7) P(4) by blast
  then have pd: "haversine_distance rounding slat slon (pickup_latitude m) (pickup_longitude m)
            = Inr (query_distance rounding slat slon (rp ! route_index p))"
    unfolding pc [symmetric]
    by (simp add: haversine_distance_cases query_returns_def query_distance_def)
  have "query_returns rounding dlat dlon (rp ! route_index d)"
    using D(7) D(4) by blast
  then have dd: "haversine_distance rounding dlat dlon (dropoff_latitude m) (dropoff_longitude m)
            = Inr (query_distance rounding dlat dlon (rp ! route_index d))"
    unfolding dc [symmetric]
    by (simp add: haversine_distance_cases query_returns_def query_distance_def)
  show ?thesis
    using trip(1) e(1) e(2) e(3) e(4) e(9) e(10) P(4) P(8) D(4) D(8) pc dc pd dd
    by (intro exI [of _ trip] exI [of _ rp] exI [of _ p] exI [of _ d]
          exI [of _ "query_distance rounding slat slon (rp ! route_index p)"]
          exI [of _ "query_distance rounding dlat dlon (rp ! route_index d)"]) simp
qed

text \<open>
  A rider who starts and ends about 111 m from the ends of the example route: the match
  carries the coordinates of the route points, not those of the rider.
\<close>

theorem matched_trip_fields_witness:
  "\<exists>ms m. find_matches no_rounding polyline_decode example_service [example_trip]
             0 (1 / 1000) 0 (1999 / 1000) 1 = Inr ms
    \<and> m \<in> set ms
    \<and> trip_id m = 7
    \<and> (pickup_latitude m, pickup_longitude m) = (0, 0)
    \<and> (dropoff_latitude m, dropoff_longitude m) = (0, 2)
    \<and> pickup_longitude m \<noteq> 1 / 1000
    \<and> dropoff_longitude m \<noteq> 1999 / 1000
    \<and> pickup_distance_meters m = Finite (6371 * pi / 180)
    \<and> dropoff_distance_meters m = Finite (6371 * pi / 180)"
proof -
  have g: "polyline_decode (route_geometry example_trip) = Inr [(0, 0), (0, 1), (0, 2)]"
    by (simp add: example_trip_def example_route)
  have "\<exists>m. evaluate_trip no_rounding polyline_decode example_service example_trip
               0 (1 / 1000) 0 (1999 / 1000) 1 = Inr (Some m)"
    using example_offset_within_radius
    by (simp add: evaluate_trip_def example_trip_def example_service_def example_route
          near_start near_end calculate_route_distance_in_bounds calculate_eta_minutes_total
          segment_returns_def no_rounding_returns)
  then obtain m where m:
    "evaluate_trip no_rounding polyline_decode example_service example_trip
       0 (1 / 1000) 0 (1999 / 1000) 1 = Inr (Some m)"
    by blast
  then have fm: "find_matches no_rounding polyline_decode example_service [example_trip]
                   0 (1 / 1000) 0 (1999 / 1000) 1 = Inr [m]"
    by (simp add: find_matches_def)
  have mem: "m \<in> set [m]" by simp
  from matched_trip_fields [OF fm mem] obtain rp p d pd dd where f:
    "trip_id m = id_trip example_trip"
    "polyline_decode (route_geometry example_trip) = Inr rp"
    "find_nearest_point_on_route no_rounding 0 (1 / 1000) rp = Inr (Some p)"
    "find_nearest_point_on_route no_rounding 0 (1999 / 1000) rp = Inr (Some d)"
    "(pickup_latitude m, pickup_longitude m) = rp ! route_index p"
    "(dropoff_latitude m, dropoff_longitude m) = rp ! route_index d"
    "haversine_distance no_rounding 0 (1 / 1000) (pickup_latitude m) (pickup_longitude m) = Inr pd"
    "pickup_distance_meters m = Finite pd"
    "haversine_distance no_rounding 0 (1999 / 1000) (dropoff_latitude m) (dropoff_longitude m)
       = Inr dd"
    "dropoff_distance_meters m = Finite dd"
    by auto
  have rp: "rp = [(0, 0), (0, 1), (0, 2)]" using f(2) g by simp
  have p: "route_index p = 0" using f(3) unfolding rp near_start by auto
  have d: "route_index d = 2" using f(4) unfolding rp near_end by auto
  have pc: "pickup_latitude m = 0" "pickup_longitude m = 0"
    using f(5) unfolding rp p by simp_all
  have dc: "dropoff_latitude m = 0" "dropoff_longitude m = 2"
    using f(6) unfolding rp d by simp_all
  have "pd = 6371 * pi / 180" using f(7) unfolding pc near_start_distance by simp
  moreover have "dd = 6371 * pi / 180" using f(9) unfolding dc near_end_distance by simp
  ultimately have "trip_id m = 7
    \<and> (pickup_latitude m, pickup_longitude m) = (0, 0)
    \<and> (dropoff_latitude m, dropoff_longitude m) = (0, 2)
    \<and> pickup_distance_meters m = Finite (6371 * pi / 180)
    \<and> dropoff_distance_meters m = Finite (6371 * pi / 180)"
    using f(1) f(8) f(10) pc dc by (simp add: example_trip_def)
  then show ?thesis using fm by auto
qed

end
